theory Spec2Isabelle
  imports
    Main
    "HOL-Library.Char_ord"
    "HOL-Library.List_Lexorder"
    "HOL-Library.AList"
    "HOL-Library.Word"
begin

section \<open>JavaScript values used by the controllers and services\<close>

text \<open>
  Instance names, contact numbers and store keys are strings of code units below 256
  (\<^typ>\<open>char\<close>), compared by code unit as \<^verbatim>\<open>Array.prototype.sort\<close> does without a
  comparator. \<^verbatim>\<open>null\<close> and \<^verbatim>\<open>undefined\<close> are \<^const>\<open>None\<close>. The group name given to
  \<^verbatim>\<open>transformToAlias\<close> is any JavaScript string: a list of 16-bit code units.
\<close>

definition truthy :: "string \<Rightarrow> bool" where
  \<comment> \<open>a string in a condition: the empty string is falsy\<close>
  "truthy s = (s \<noteq> [])"

definition orNull :: "string option \<Rightarrow> string option" where
  \<comment> \<open>\<^verbatim>\<open>x || null\<close> on a string, null or undefined\<close>
  "orNull x = (case x of None \<Rightarrow> None | Some s \<Rightarrow> if truthy s then Some s else None)"

definition truthyOpt :: "string option \<Rightarrow> bool" where
  \<comment> \<open>a string, null or undefined in a condition, as in \<^verbatim>\<open>!selectedInstance\<close>\<close>
  "truthyOpt x = (case x of None \<Rightarrow> False | Some s \<Rightarrow> truthy s)"

fun indexOf :: "string list \<Rightarrow> string \<Rightarrow> int" where
  "indexOf [] x = -1"
| "indexOf (y # ys) x =
     (if x = y then 0 else (let i = indexOf ys x in if i < 0 then -1 else i + 1))"

text \<open>
  A \<^verbatim>\<open>Set<string>\<close> is the list of its members in insertion order; \<^verbatim>\<open>Array.from\<close> of a
  set is that list.
\<close>

definition Set_has :: "string list \<Rightarrow> string \<Rightarrow> bool" where
  "Set_has xs x = (x \<in> set xs)"

definition Set_add :: "string list \<Rightarrow> string \<Rightarrow> string list" where
  "Set_add xs x = (if x \<in> set xs then xs else xs @ [x])"

definition Set_size :: "string list \<Rightarrow> nat" where
  "Set_size xs = length (remdups xs)"

definition new_Set :: "string list \<Rightarrow> string list" where
  \<comment> \<open>\<^verbatim>\<open>new Set(array)\<close>\<close>
  "new_Set arr = foldl Set_add [] arr"

subsection \<open>Regular expressions of the source\<close>

definition isDigit :: "char \<Rightarrow> bool" where
  \<comment> \<open>\<^verbatim>\<open>\d\<close>\<close>
  "isDigit c = (CHR ''0'' \<le> c \<and> c \<le> CHR ''9'')"

section \<open>InstanceGroupController.transformToAlias\<close>

type_synonym code_unit = "16 word"

type_synonym js_string = "code_unit list"

definition ofString :: "string \<Rightarrow> js_string" where
  \<comment> \<open>a string of code units below 256 as a JavaScript string\<close>
  "ofString s = map of_char s"

definition isSpace :: "code_unit \<Rightarrow> bool" where
  \<comment> \<open>\<^verbatim>\<open>\s\<close>: U+0009 to U+000D, U+0020, U+00A0, U+1680, U+2000 to U+200A, U+2028, U+2029,
     U+202F, U+205F, U+3000, U+FEFF\<close>
  "isSpace c =
     (let n = unat c
      in n \<in> {9, 10, 11, 12, 13, 32, 160, 5760, 8232, 8233, 8239, 8287, 12288, 65279} \<or>
         (8192 \<le> n \<and> n \<le> 8202))"

definition toLowerASCII :: "code_unit \<Rightarrow> code_unit" where
  \<comment> \<open>A to Z become a to z, 32 above\<close>
  "toLowerASCII c = (if 65 \<le> unat c \<and> unat c \<le> 90 then c + 32 else c)"

text \<open>
  \<^verbatim>\<open>String.prototype.toLowerCase\<close> replaces every code unit below 128 by its ASCII lower
  case, whatever surrounds it. What replaces a code unit from 128 on is decided by the Unicode
  case tables of the runtime, which are no part of the repository: a letter can become an
  ASCII letter (U+212A gives \<^verbatim>\<open>k\<close>), several code units (U+0130 gives \<^verbatim>\<open>i\<close> and U+0307), a
  result that depends on its neighbours (U+03A3), and the two halves of a surrogate pair are
  mapped together. The tables are therefore a parameter: \<open>unicode s i\<close> is the list of
  code units that stands in the result for the code unit at index \<open>i\<close> of \<open>s\<close>.
\<close>

type_synonym case_tables = "js_string \<Rightarrow> nat \<Rightarrow> js_string"

definition toLowerCase :: "case_tables \<Rightarrow> js_string \<Rightarrow> js_string" where
  "toLowerCase unicode s =
     concat (map (\<lambda>i. if unat (s ! i) < 128 then [toLowerASCII (s ! i)] else unicode s i)
       [0..<length s])"

definition isAliasChar :: "code_unit \<Rightarrow> bool" where
  \<comment> \<open>\<^verbatim>\<open>[a-z0-9-]\<close>\<close>
  "isAliasChar c =
     (let n = unat c
      in (97 \<le> n \<and> n \<le> 122) \<or> (48 \<le> n \<and> n \<le> 57) \<or> n = 45)"

definition hyphen :: code_unit where
  \<comment> \<open>\<^verbatim>\<open>'-'\<close>, U+002D\<close>
  "hyphen = 45"

text \<open>\<^verbatim>\<open>s.replace(/P+/g, r)\<close>: every maximal run of code units in the class becomes \<open>r\<close>.\<close>

function replaceRuns :: "(code_unit \<Rightarrow> bool) \<Rightarrow> code_unit \<Rightarrow> js_string \<Rightarrow> js_string" where
  "replaceRuns P r [] = []"
| "replaceRuns P r (c # cs) =
     (if P c then r # replaceRuns P r (dropWhile P cs) else c # replaceRuns P r cs)"
  by pat_completeness auto
termination
  by (relation "measure (\<lambda>(P, r, s). length s)")
     (auto simp: length_dropWhile_le less_Suc_eq_le)

definition stripEdgeHyphens :: "js_string \<Rightarrow> js_string" where
  \<comment> \<open>\<^verbatim>\<open>s.replace(/^-|-$/g, '')\<close>: one hyphen off the front, then one off the end\<close>
  "stripEdgeHyphens s =
     (let s1 = (case s of [] \<Rightarrow> [] | c # cs \<Rightarrow> if c = hyphen then cs else s)
      in if s1 \<noteq> [] \<and> last s1 = hyphen then butlast s1 else s1)"

definition transformToAlias :: "case_tables \<Rightarrow> js_string \<Rightarrow> js_string" where
  "transformToAlias unicode input =
     stripEdgeHyphens
       (replaceRuns (\<lambda>c. c = hyphen) hyphen
         (filter isAliasChar
           (replaceRuns isSpace hyphen (toLowerCase unicode input))))"

text \<open>The pattern \<^verbatim>\<open>^[a-z0-9-]+$\<close> on a string.\<close>

definition matchesAliasPattern :: "js_string \<Rightarrow> bool" where
  "matchesAliasPattern s = (s \<noteq> [] \<and> list_all isAliasChar s)"

fun noAdjacentHyphens :: "js_string \<Rightarrow> bool" where
  "noAdjacentHyphens (a # b # cs) =
     (\<not> (a = hyphen \<and> b = hyphen) \<and> noAdjacentHyphens (b # cs))"
| "noAdjacentHyphens _ = True"

text \<open>
  The shape of a finished alias: alias characters only, no two hyphens in a row, no hyphen
  at either end.
\<close>

definition aliasShaped :: "js_string \<Rightarrow> bool" where
  "aliasShaped s = (list_all isAliasChar s \<and> noAdjacentHyphens s \<and>
     (s \<noteq> [] \<longrightarrow> hd s \<noteq> hyphen \<and> last s \<noteq> hyphen))"

text \<open>
  A few rows of the Unicode tables, for running the function: U+212A (Kelvin sign), U+0130
  (capital I with dot above) and the capital letters of U+00C0 to U+00DE.
\<close>

definition sampleTables :: case_tables where
  "sampleTables s i =
     (let c = s ! i; n = unat c
      in if n = 8490 then [107]
         else if n = 304 then [105, 775]
         else if 192 \<le> n \<and> n \<le> 222 \<and> n \<noteq> 215 then [c + 32]
         else [c])"

section \<open>The rotation store of SendMessageController\<close>

datatype exception =
    BadRequestException string
  | NotFoundException string
  | InternalServerErrorException string
  | TypeError string
  | CacheError string
  | SendError string

text \<open>
  Modelled from the spec: the status each exception class of \<^verbatim>\<open>@exceptions\<close> is answered
  with (the module is not part of the sources): 400 validation, 404 missing, 500 internal;
  an error that is no HTTP exception is an internal error.
\<close>

definition httpStatus :: "exception \<Rightarrow> nat" where
  "httpStatus e =
     (case e of
        BadRequestException m \<Rightarrow> 400
      | NotFoundException m \<Rightarrow> 404
      | InternalServerErrorException m \<Rightarrow> 500
      | TypeError m \<Rightarrow> 500
      | CacheError m \<Rightarrow> 500
      | SendError m \<Rightarrow> 500)"

record rotation_data =
  usedInstances :: "string list"
  lastUsedInstance :: "string option"
  rotationCount :: int

record global_rotation_data =
  globalLastUsedInstance :: "string option"
  globalRotationCount :: int

text \<open>
  The object written to the cache under a key. Contact entries and the global entry share
  the cache, so the array is optional: the global entry has none.
\<close>

record cache_data =
  cachedUsedInstances :: "string list option"
  cachedLastUsedInstance :: "string option"
  cachedRotationCount :: int
  lastUpdated :: string

text \<open>
  Modelled from the spec: the cache collaborator \<^verbatim>\<open>CacheService\<close> (not part of the
  sources), whose \<^verbatim>\<open>get\<close> and \<^verbatim>\<open>set\<close> return a result or fail. A working cache
  stores and returns entries; a cache that is not enabled stores nothing and returns
  nothing; a failing cache throws on every call.
\<close>

datatype cache_mode = CacheWorking | CacheDisabled | CacheFailing

record cache_service =
  entries :: "string \<rightharpoonup> cache_data"
  mode :: cache_mode

definition cache_get :: "cache_service \<Rightarrow> string \<Rightarrow> exception + cache_data option" where
  "cache_get c k =
     (case mode c of
        CacheWorking \<Rightarrow> Inr (entries c k)
      | CacheDisabled \<Rightarrow> Inr None
      | CacheFailing \<Rightarrow> Inl (CacheError ''get''))"

definition cache_set :: "cache_service \<Rightarrow> string \<Rightarrow> cache_data \<Rightarrow> exception + cache_service" where
  "cache_set c k v =
     (case mode c of
        CacheWorking \<Rightarrow> Inr (c\<lparr>entries := (entries c)(k \<mapsto> v)\<rparr>)
      | CacheDisabled \<Rightarrow> Inr c
      | CacheFailing \<Rightarrow> Inl (CacheError ''set''))"

record controller_state =
  cache :: cache_service
  rotationMemory :: "string \<rightharpoonup> rotation_data"
  globalRotationMemory :: global_rotation_data

definition CACHE_KEY_PREFIX :: string where
  "CACHE_KEY_PREFIX = ''instance_rotation''"

definition GLOBAL_CACHE_KEY :: string where
  "GLOBAL_CACHE_KEY = ''global_rotation''"

definition GROUP_CACHE_KEY_PREFIX :: string where
  "GROUP_CACHE_KEY_PREFIX = ''group_rotation''"

definition cacheKey :: "string \<Rightarrow> string" where
  \<comment> \<open>\<^verbatim>\<open>`${this.CACHE_KEY_PREFIX}:${contactNumber}`\<close>\<close>
  "cacheKey contactNumber = CACHE_KEY_PREFIX @ '':'' @ contactNumber"

text \<open>
  \<^verbatim>\<open>saveRotationDataToCache\<close>: the cache is written first and the in-memory map after it,
  both inside one \<^verbatim>\<open>try\<close>; when the cache write throws, the \<^verbatim>\<open>catch\<close> logs and
  the map is left as it was. The first argument is the clock reading put in
  \<^verbatim>\<open>lastUpdated\<close>.
\<close>

definition saveRotationDataToCache ::
  "string \<Rightarrow> controller_state \<Rightarrow> string \<Rightarrow> rotation_data \<Rightarrow> controller_state" where
  "saveRotationDataToCache now s contactNumber data =
     (let cacheData = \<lparr> cachedUsedInstances = Some (usedInstances data),
                        cachedLastUsedInstance = lastUsedInstance data,
                        cachedRotationCount = rotationCount data,
                        lastUpdated = now \<rparr>
      in case cache_set (cache s) (cacheKey contactNumber) cacheData of
           Inl error \<Rightarrow> s
         | Inr c \<Rightarrow>
             s\<lparr> cache := c,
                rotationMemory := (rotationMemory s)(contactNumber \<mapsto>
                  \<lparr> usedInstances = usedInstances data,
                    lastUsedInstance = lastUsedInstance data,
                    rotationCount = rotationCount data \<rparr>) \<rparr>)"

text \<open>
  \<^verbatim>\<open>getRotationDataFromCache\<close>: a cache entry wins; without one the in-memory map is
  read; when the cache read throws, the \<^verbatim>\<open>catch\<close> returns null.
\<close>

definition getRotationDataFromCache :: "controller_state \<Rightarrow> string \<Rightarrow> rotation_data option" where
  "getRotationDataFromCache s contactNumber =
     (case cache_get (cache s) (cacheKey contactNumber) of
        Inl error \<Rightarrow> None
      | Inr (Some cacheData) \<Rightarrow>
          Some \<lparr> usedInstances =
                   new_Set (case cachedUsedInstances cacheData of None \<Rightarrow> [] | Some a \<Rightarrow> a),
                 lastUsedInstance = orNull (cachedLastUsedInstance cacheData),
                 rotationCount = cachedRotationCount cacheData \<rparr>
      | Inr None \<Rightarrow> rotationMemory s contactNumber)"

definition saveGlobalRotationData ::
  "string \<Rightarrow> controller_state \<Rightarrow> global_rotation_data \<Rightarrow> controller_state" where
  "saveGlobalRotationData now s data =
     (let cacheData = \<lparr> cachedUsedInstances = None,
                        cachedLastUsedInstance = globalLastUsedInstance data,
                        cachedRotationCount = globalRotationCount data,
                        lastUpdated = now \<rparr>
      in case cache_set (cache s) GLOBAL_CACHE_KEY cacheData of
           Inl error \<Rightarrow> s
         | Inr c \<Rightarrow>
             s\<lparr> cache := c,
                globalRotationMemory :=
                  \<lparr> globalLastUsedInstance = globalLastUsedInstance data,
                    globalRotationCount = globalRotationCount data \<rparr> \<rparr>)"

definition getGlobalRotationData :: "controller_state \<Rightarrow> global_rotation_data option" where
  "getGlobalRotationData s =
     (case cache_get (cache s) GLOBAL_CACHE_KEY of
        Inl error \<Rightarrow> None
      | Inr (Some cacheData) \<Rightarrow>
          Some \<lparr> globalLastUsedInstance = orNull (cachedLastUsedInstance cacheData),
                 globalRotationCount = cachedRotationCount cacheData \<rparr>
      | Inr None \<Rightarrow>
          Some \<lparr> globalLastUsedInstance = globalLastUsedInstance (globalRotationMemory s),
                 globalRotationCount = globalRotationCount (globalRotationMemory s) \<rparr>)"

section \<open>Instance selection\<close>

definition normalizeContactNumber :: "string \<Rightarrow> string" where
  \<comment> \<open>\<^verbatim>\<open>contactNumber.replace(/[^\d]/g, '')\<close>\<close>
  "normalizeContactNumber contactNumber = filter isDigit contactNumber"

definition newRotation :: rotation_data where
  "newRotation = \<lparr> usedInstances = [], lastUsedInstance = None, rotationCount = 0 \<rparr>"

definition newGlobalRotation :: global_rotation_data where
  "newGlobalRotation = \<lparr> globalLastUsedInstance = None, globalRotationCount = 0 \<rparr>"

text \<open>
  The two passes of \<^verbatim>\<open>selectInstanceForContact\<close> are the same loop with two tests:
  \<^verbatim>\<open>for (let i = 0; i < n; i++) { candidate = sorted[(globalNextIndex + i) % n]; ... break }\<close>.
\<close>

function firstMatchFrom :: "(string \<Rightarrow> bool) \<Rightarrow> string list \<Rightarrow> nat \<Rightarrow> nat \<Rightarrow> string option" where
  "firstMatchFrom ok xs g i =
     (if i < length xs
      then (let candidate = xs ! ((g + i) mod length xs)
            in if ok candidate then Some candidate else firstMatchFrom ok xs g (i + 1))
      else None)"
  by pat_completeness auto
termination
  by (relation "measure (\<lambda>(ok, xs, g, i). length xs - i)") auto

declare firstMatchFrom.simps [simp del]

text \<open>
  \<^verbatim>\<open>selectInstanceForContact\<close> (ungrouped). Both callers return before the call when
  the list of instances is empty, so the indexed reads are in range; the pair of clock
  readings is the one of the two saves.
\<close>

definition globalNextIndexOf :: "global_rotation_data option \<Rightarrow> string list \<Rightarrow> nat" where
  "globalNextIndexOf globalRotation sortedInstances =
     (case globalRotation of
        None \<Rightarrow> 0
      | Some g \<Rightarrow>
          (case globalLastUsedInstance g of
             None \<Rightarrow> 0
           | Some l \<Rightarrow>
               if truthy l
               then (let globalLastIndex = indexOf sortedInstances l
                     in if globalLastIndex \<ge> 0
                        then nat ((globalLastIndex + 1) mod int (length sortedInstances))
                        else 0)
               else 0))"

definition selectInstanceForContact ::
  "string \<times> string \<Rightarrow> controller_state \<Rightarrow> string \<Rightarrow> string list \<Rightarrow> string \<times> controller_state" where
  "selectInstanceForContact clock s contactNumber availableInstances =
     (let normalizedContact = normalizeContactNumber contactNumber;
          sortedInstances = sort availableInstances;
          loaded = (case getRotationDataFromCache s normalizedContact of
                      None \<Rightarrow> newRotation | Some d \<Rightarrow> d);
          rotationInfo =
            (if Set_size (usedInstances loaded) \<ge> length sortedInstances
             then loaded\<lparr> usedInstances := [], rotationCount := rotationCount loaded + 1 \<rparr>
             else loaded);
          globalRotation = getGlobalRotationData s;
          globalNextIndex = globalNextIndexOf globalRotation sortedInstances;
          firstPass =
            firstMatchFrom
              (\<lambda>candidate. Some candidate \<noteq> lastUsedInstance rotationInfo \<and>
                           \<not> Set_has (usedInstances rotationInfo) candidate)
              sortedInstances globalNextIndex 0;
          secondPass =
            (if truthyOpt firstPass then firstPass
             else firstMatchFrom
                    (\<lambda>candidate. Some candidate \<noteq> lastUsedInstance rotationInfo)
                    sortedInstances globalNextIndex 0);
          selectedInstance =
            (if truthyOpt secondPass then the secondPass
             else sortedInstances ! globalNextIndex);
          saved = rotationInfo\<lparr> usedInstances := Set_add (usedInstances rotationInfo) selectedInstance,
                                lastUsedInstance := Some selectedInstance \<rparr>;
          s1 = saveRotationDataToCache (fst clock) s normalizedContact saved;
          s2 = saveGlobalRotationData (snd clock) s1
                 \<lparr> globalLastUsedInstance = Some selectedInstance,
                   globalRotationCount =
                     (case globalRotation of None \<Rightarrow> 0 | Some g \<Rightarrow> globalRotationCount g) + 1 \<rparr>
      in (selectedInstance, s2))"

text \<open>
  \<^verbatim>\<open>selectInstanceForContactInGroup\<close>. The contact key is built from the contact as
  passed. The source also builds \<^verbatim>\<open>globalKey\<close>
  (\<^verbatim>\<open>`${this.GROUP_CACHE_KEY_PREFIX}:${groupId}:global`\<close>) and never uses it: the global
  descriptor is read and written by \<^verbatim>\<open>getGlobalRotationData\<close> and
  \<^verbatim>\<open>saveGlobalRotationData\<close>, as in the ungrouped path.
\<close>

definition groupContactKey :: "string \<Rightarrow> string \<Rightarrow> string" where
  "groupContactKey groupId contact = GROUP_CACHE_KEY_PREFIX @ '':'' @ groupId @ '':'' @ contact"

definition groupGlobalKey :: "string \<Rightarrow> string" where
  "groupGlobalKey groupId = GROUP_CACHE_KEY_PREFIX @ '':'' @ groupId @ '':global''"

definition selectInstanceForContactInGroup ::
  "string \<times> string \<Rightarrow> controller_state \<Rightarrow> string \<Rightarrow> string list \<Rightarrow> string
     \<Rightarrow> string \<times> controller_state" where
  "selectInstanceForContactInGroup clock s contact groupInstances groupId =
     (let contactKey = groupContactKey groupId contact;
          globalKey = groupGlobalKey groupId;
          contactRotationData = (case getRotationDataFromCache s contactKey of
                                   None \<Rightarrow> newRotation | Some d \<Rightarrow> d);
          globalRotationData = (case getGlobalRotationData s of
                                  None \<Rightarrow> newGlobalRotation | Some g \<Rightarrow> g);
          orderedInstances = sort groupInstances;
          currentGlobalIndex =
            (case globalLastUsedInstance globalRotationData of
               None \<Rightarrow> -1
             | Some l \<Rightarrow> if truthy l then indexOf orderedInstances l else -1);
          nextGlobalIndex = nat ((currentGlobalIndex + 1) mod int (length orderedInstances));
          nextGlobalInstance = orderedInstances ! nextGlobalIndex;
          selectedInstance =
            (if Some nextGlobalInstance \<noteq> lastUsedInstance contactRotationData \<and>
                \<not> Set_has (usedInstances contactRotationData) nextGlobalInstance
             then nextGlobalInstance
             else (let unused = find (\<lambda>instance.
                                   Some instance \<noteq> lastUsedInstance contactRotationData \<and>
                                   \<not> Set_has (usedInstances contactRotationData) instance)
                                 orderedInstances;
                       other = find (\<lambda>instance. Some instance \<noteq> lastUsedInstance contactRotationData)
                                 orderedInstances
                   in if truthyOpt unused then the unused
                      else if truthyOpt other then the other
                      else orderedInstances ! 0));
          added = Set_add (usedInstances contactRotationData) selectedInstance;
          newUsedInstances =
            (if Set_size added \<ge> length orderedInstances then [selectedInstance] else added);
          newContactRotationData =
            \<lparr> usedInstances = newUsedInstances,
              lastUsedInstance = Some selectedInstance,
              rotationCount = rotationCount contactRotationData + 1 \<rparr>;
          newGlobalRotationData =
            \<lparr> globalLastUsedInstance = Some selectedInstance,
              globalRotationCount = globalRotationCount globalRotationData + 1 \<rparr>;
          s1 = saveRotationDataToCache (fst clock) s contactKey newContactRotationData;
          s2 = saveGlobalRotationData (snd clock) s1 newGlobalRotationData
      in (selectedInstance, s2))"

section \<open>InstanceGroupService and the balanced send\<close>

record instance_group =
  group_id :: string
  group_name :: string
  group_alias :: string
  description :: "string option"
  enabled :: bool
  instances :: "string list"

text \<open>
  \<^verbatim>\<open>waMonitor.waInstances\<close>: the instances by name, in key order, each with the
  \<^verbatim>\<open>state\<close> of its \<^verbatim>\<open>connectionStatus\<close>.
\<close>

type_synonym wa_instances = "(string \<times> string) list"

definition isOpen :: "wa_instances \<Rightarrow> string \<Rightarrow> bool" where
  \<comment> \<open>\<^verbatim>\<open>instance && instance.connectionStatus?.state === 'open'\<close>\<close>
  "isOpen waInstances instanceName =
     (case map_of waInstances instanceName of None \<Rightarrow> False | Some st \<Rightarrow> st = ''open'')"

definition findByAlias :: "instance_group list \<Rightarrow> string \<Rightarrow> exception + instance_group" where
  "findByAlias repository a =
     (case find (\<lambda>g. group_alias g = a) repository of
        None \<Rightarrow> Inl (NotFoundException ''Instance group not found'')
      | Some instanceGroup \<Rightarrow> Inr instanceGroup)"

definition getActiveInstances ::
  "instance_group list \<Rightarrow> wa_instances \<Rightarrow> string \<Rightarrow> exception + string list" where
  "getActiveInstances repository waInstances groupId =
     (case find (\<lambda>g. group_id g = groupId \<and> enabled g) repository of
        None \<Rightarrow> Inl (NotFoundException ''Instance group not found or disabled'')
      | Some theGroup \<Rightarrow>
          (let activeInstances = filter (isOpen waInstances) (instances theGroup)
           in if length activeInstances = 0
              then Inl (BadRequestException ''No active instances found in the group'')
              else Inr activeInstances))"

definition getAvailableInstances :: "wa_instances \<Rightarrow> string list" where
  "getAvailableInstances waInstances = filter (isOpen waInstances) (map fst waInstances)"

record group_balancing_info =
  info_contact :: string
  info_groupId :: string
  info_lastUsedInstance :: "string option"
  info_usedInstancesInCycle :: "string list"
  info_rotationCount :: int
  info_globalLastUsedInstance :: "string option"
  info_globalRotationCount :: int

definition getContactBalancingInfoInGroup ::
  "controller_state \<Rightarrow> string \<Rightarrow> string \<Rightarrow> exception + group_balancing_info" where
  "getContactBalancingInfoInGroup s contact groupId =
     (case getRotationDataFromCache s (groupContactKey groupId contact) of
        None \<Rightarrow> Inl (TypeError ''contactData is null'')
      | Some contactData \<Rightarrow>
          (case getGlobalRotationData s of
             None \<Rightarrow> Inl (TypeError ''globalData is null'')
           | Some globalData \<Rightarrow>
               Inr \<lparr> info_contact = contact,
                     info_groupId = groupId,
                     info_lastUsedInstance = lastUsedInstance contactData,
                     info_usedInstancesInCycle = usedInstances contactData,
                     info_rotationCount = rotationCount contactData,
                     info_globalLastUsedInstance = globalLastUsedInstance globalData,
                     info_globalRotationCount = globalRotationCount globalData \<rparr>))"

record send_text_with_group_balancing =
  send_alias :: string
  send_number :: string
  send_text :: string

record group_send_response =
  response_result :: string
  response_instanceUsed :: string
  response_groupId :: string
  response_groupAlias :: string
  response_balancingInfo :: group_balancing_info

text \<open>
  \<^verbatim>\<open>sendTextWithGroupBalancing\<close>. The group service is an optional constructor argument;
  \<open>textMessage\<close> is the send of the chosen instance, which returns its result or throws.
  Every exception is logged and thrown again; the rotation state written before it stays.
\<close>

definition sendTextWithGroupBalancing ::
  "string \<times> string \<Rightarrow> instance_group list option \<Rightarrow> wa_instances
     \<Rightarrow> (string \<Rightarrow> exception + string) \<Rightarrow> controller_state \<Rightarrow> send_text_with_group_balancing
     \<Rightarrow> (exception + group_send_response) \<times> controller_state" where
  "sendTextWithGroupBalancing clock instanceGroupService waInstances textMessage s data =
     (case instanceGroupService of
        None \<Rightarrow> (Inl (InternalServerErrorException ''Instance Group Service nao esta disponivel''), s)
      | Some repository \<Rightarrow>
          (case findByAlias repository (send_alias data) of
             Inl e \<Rightarrow> (Inl e, s)
           | Inr theGroup \<Rightarrow>
               (case getActiveInstances repository waInstances (group_id theGroup) of
                  Inl e \<Rightarrow> (Inl e, s)
                | Inr groupInstances \<Rightarrow>
                    if length groupInstances = 0
                    then (Inl (BadRequestException
                                ''Nenhuma instancia ativa encontrada no grupo especificado''), s)
                    else (let (selectedInstance, s') =
                                selectInstanceForContactInGroup clock s (send_number data)
                                  groupInstances (group_id theGroup)
                          in case textMessage selectedInstance of
                               Inl e \<Rightarrow> (Inl e, s')
                             | Inr result \<Rightarrow>
                                 (case getContactBalancingInfoInGroup s' (send_number data)
                                         (group_id theGroup) of
                                    Inl e \<Rightarrow> (Inl e, s')
                                  | Inr info \<Rightarrow>
                                      (Inr \<lparr> response_result = result,
                                             response_instanceUsed = selectedInstance,
                                             response_groupId = group_id theGroup,
                                             response_groupAlias = send_alias data,
                                             response_balancingInfo = info \<rparr>, s'))))))"

text \<open>The status a request handler answers with: 200 with the response, else the exception's.\<close>

definition responseStatus :: "(exception + 'a) \<Rightarrow> nat" where
  "responseStatus r = (case r of Inl e \<Rightarrow> httpStatus e | Inr v \<Rightarrow> 200)"

section \<open>ExternalWebhookService\<close>

datatype auth_type = AuthNone | AuthBearer | AuthBasic | AuthApiKey | AuthJwt

record authentication_config =
  authType :: auth_type
  token :: "string option"
  username :: "string option"
  password :: "string option"
  headerName :: "string option"
  jwtSecret :: "string option"

text \<open>
  Of the retry configuration, \<open>maxAttempts\<close> and \<open>nonRetryableStatusCodes\<close> decide how
  many requests are made; the delay fields only set the length of the sleep between
  two attempts.
\<close>

record retry_config =
  maxAttempts :: "nat option"
  nonRetryableStatusCodes :: "nat list option"

record security_config =
  enableSignatureValidation :: bool
  signatureSecret :: "string option"
  signatureHeader :: "string option"
  signatureAlgorithm :: "string option"

record filter_config =
  filterInstances :: "string list option"
  excludeInstances :: "string list option"

record external_webhook =
  webhook_id :: string
  webhook_name :: string
  url :: string
  webhook_enabled :: bool
  events :: "string list option"
  headers :: "(string \<times> string) list option"
  authentication :: "authentication_config option"
  retryConfig :: "retry_config option"
  securityConfig :: "security_config option"
  filterConfig :: "filter_config option"
  timeout :: nat

record webhook_payload =
  payload_event :: string
  payload_instance :: "string option"
  payload_data :: string
  payload_timestamp :: string
  payload_webhook_id :: string
  payload_webhook_name :: string

record http_request =
  req_url :: string
  req_headers :: "(string \<times> string) list"
  req_timeout :: nat
  req_body :: webhook_payload

datatype webhook_error =
    AxiosError (error_code: "string option") (response_status: "nat option") (error_message: string)
  | JwtError (error_message: string)
  | DatabaseError (error_message: string)

datatype post_outcome = Resolved nat | Rejected webhook_error

text \<open>What a delivery does to the outside, in order.\<close>

datatype effect = HttpPost http_request | UpdateStats bool "string option" | Sleep

definition isHttpPost :: "effect \<Rightarrow> bool" where
  "isHttpPost e = (case e of HttpPost r \<Rightarrow> True | UpdateStats ok m \<Rightarrow> False | Sleep \<Rightarrow> False)"

definition posts :: "effect list \<Rightarrow> nat" where
  "posts effs = length (filter isHttpPost effs)"

text \<open>
  The library functions the service calls: base64 encoding, \<^verbatim>\<open>jwt.sign\<close> (which reads
  the clock and may throw) and the hex digest of \<^verbatim>\<open>crypto.createHmac\<close> by algorithm,
  key and message.
\<close>

record libraries =
  base64 :: "string \<Rightarrow> string"
  jwtSign :: "string \<Rightarrow> webhook_error + string"
  hmacHex :: "string \<Rightarrow> string \<Rightarrow> string \<Rightarrow> string"

definition spread :: "(string \<times> string) list \<Rightarrow> (string \<times> string) list \<Rightarrow> (string \<times> string) list" where
  \<comment> \<open>\<^verbatim>\<open>{ ...base, ...obj }\<close> on objects given as lists of properties\<close>
  "spread base obj = foldl (\<lambda>acc (k, v). AList.update k v acc) base obj"

definition generateWebhookSignature :: "libraries \<Rightarrow> string \<Rightarrow> string \<Rightarrow> string \<Rightarrow> string" where
  "generateWebhookSignature lib payload secret algorithm =
     algorithm @ ''='' @ hmacHex lib algorithm secret payload"

definition configureAuthentication ::
  "libraries \<Rightarrow> (string \<times> string) list \<Rightarrow> authentication_config option
     \<Rightarrow> webhook_error + (string \<times> string) list" where
  "configureAuthentication lib hs authConfig =
     (case authConfig of
        None \<Rightarrow> Inr hs
      | Some a \<Rightarrow>
          (case authType a of
             AuthNone \<Rightarrow> Inr hs
           | AuthBearer \<Rightarrow>
               (if truthyOpt (token a)
                then Inr (AList.update ''Authorization'' (''Bearer '' @ the (token a)) hs)
                else Inr hs)
           | AuthBasic \<Rightarrow>
               (if truthyOpt (username a) \<and> truthyOpt (password a)
                then Inr (AList.update ''Authorization''
                            (''Basic '' @ base64 lib (the (username a) @ '':'' @ the (password a))) hs)
                else Inr hs)
           | AuthApiKey \<Rightarrow>
               (if truthyOpt (token a) \<and> truthyOpt (headerName a)
                then Inr (AList.update (the (headerName a)) (the (token a)) hs)
                else Inr hs)
           | AuthJwt \<Rightarrow>
               (if truthyOpt (jwtSecret a)
                then (case jwtSign lib (the (jwtSecret a)) of
                        Inl e \<Rightarrow> Inl e
                      | Inr jwtToken \<Rightarrow> Inr (AList.update ''Authorization'' (''Bearer '' @ jwtToken) hs))
                else Inr hs)))"

text \<open>
  The loop of \<^verbatim>\<open>retryWebhookRequest\<close>. \<open>responses k\<close> is the outcome of the POST made
  after \<open>k\<close> failed ones; the result is what was done and the error thrown, if any.
\<close>

definition isNonRetryable :: "nat list \<Rightarrow> webhook_error \<Rightarrow> bool" where
  \<comment> \<open>\<^verbatim>\<open>statusCode && nonRetryableStatusCodes.includes(statusCode)\<close>\<close>
  "isNonRetryable codes error =
     (case error of
        AxiosError c st m \<Rightarrow> (case st of None \<Rightarrow> False | Some n \<Rightarrow> n \<noteq> 0 \<and> n \<in> set codes)
      | JwtError m \<Rightarrow> False
      | DatabaseError m \<Rightarrow> False)"

function retryLoop ::
  "http_request \<Rightarrow> nat \<Rightarrow> nat list \<Rightarrow> (nat \<Rightarrow> post_outcome) \<Rightarrow> nat
     \<Rightarrow> effect list \<times> webhook_error option" where
  "retryLoop req maxRetryAttempts codes responses attempts =
     (if attempts < maxRetryAttempts
      then (case responses attempts of
              Resolved st \<Rightarrow> ([HttpPost req, UpdateStats True None], None)
            | Rejected error \<Rightarrow>
                (if isNonRetryable codes error
                 then ([HttpPost req, UpdateStats False (Some (error_message error))], Some error)
                 else if attempts + 1 = maxRetryAttempts
                 then ([HttpPost req, UpdateStats False (Some (error_message error))], Some error)
                 else (let rest = retryLoop req maxRetryAttempts codes responses (attempts + 1)
                       in (HttpPost req # Sleep # fst rest, snd rest))))
      else ([], None))"
  by pat_completeness auto
termination
  by (relation "measure (\<lambda>(req, m, codes, responses, attempts). m - attempts)") auto

declare retryLoop.simps [simp del]

definition maxRetryAttemptsOf :: "retry_config option \<Rightarrow> nat" where
  \<comment> \<open>\<^verbatim>\<open>retryConfig?.maxAttempts || 3\<close>\<close>
  "maxRetryAttemptsOf config =
     (case config of
        None \<Rightarrow> 3
      | Some r \<Rightarrow> (case maxAttempts r of None \<Rightarrow> 3 | Some n \<Rightarrow> if n = 0 then 3 else n))"

definition nonRetryableStatusCodesOf :: "retry_config option \<Rightarrow> nat list" where
  \<comment> \<open>\<^verbatim>\<open>retryConfig?.nonRetryableStatusCodes || [400, 401, 403, 404, 422]\<close>\<close>
  "nonRetryableStatusCodesOf config =
     (case config of
        None \<Rightarrow> [400, 401, 403, 404, 422]
      | Some r \<Rightarrow> (case nonRetryableStatusCodes r of
                     None \<Rightarrow> [400, 401, 403, 404, 422] | Some codes \<Rightarrow> codes))"

definition retryWebhookRequest ::
  "http_request \<Rightarrow> retry_config option \<Rightarrow> (nat \<Rightarrow> post_outcome)
     \<Rightarrow> effect list \<times> webhook_error option" where
  "retryWebhookRequest req config responses =
     retryLoop req (maxRetryAttemptsOf config) (nonRetryableStatusCodesOf config)
       responses 0"

definition executeWebhookRequest ::
  "libraries \<Rightarrow> external_webhook \<Rightarrow> webhook_payload \<Rightarrow> (nat \<Rightarrow> post_outcome)
     \<Rightarrow> effect list \<times> webhook_error option" where
  "executeWebhookRequest lib webhook payload responses =
     (let hs = spread [] (case headers webhook of None \<Rightarrow> [] | Some h \<Rightarrow> h)
      in case configureAuthentication lib hs (authentication webhook) of
           Inl e \<Rightarrow> ([], Some e)
         | Inr hs' \<Rightarrow>
             retryWebhookRequest
               \<lparr> req_url = url webhook,
                 req_headers = spread [(''Content-Type'', ''application/json'')] hs',
                 req_timeout = (if timeout webhook = 0 then 30000 else timeout webhook),
                 req_body = payload \<rparr>
               (retryConfig webhook) responses)"

subsection \<open>Circuit breaker\<close>

datatype circuit_state = CLOSED | OPEN | HALF_OPEN

record circuit_breaker_state =
  failures :: nat
  lastFailureTime :: int
  state :: circuit_state

definition CIRCUIT_BREAKER_THRESHOLD :: nat where
  "CIRCUIT_BREAKER_THRESHOLD = 5"

definition CIRCUIT_BREAKER_TIMEOUT :: int where
  "CIRCUIT_BREAKER_TIMEOUT = 60000"

type_synonym circuit_breakers = "string \<rightharpoonup> circuit_breaker_state"

definition canExecuteWebhook :: "circuit_breakers \<Rightarrow> string \<Rightarrow> int \<Rightarrow> bool \<times> circuit_breakers" where
  "canExecuteWebhook cbs webhookId now =
     (case cbs webhookId of
        None \<Rightarrow>
          (True, cbs(webhookId \<mapsto> \<lparr> failures = 0, lastFailureTime = 0, state = CLOSED \<rparr>))
      | Some circuitState \<Rightarrow>
          (case state circuitState of
             CLOSED \<Rightarrow> (True, cbs)
           | OPEN \<Rightarrow>
               if now - lastFailureTime circuitState > CIRCUIT_BREAKER_TIMEOUT
               then (True, cbs(webhookId \<mapsto> circuitState\<lparr> state := HALF_OPEN \<rparr>))
               else (False, cbs)
           | HALF_OPEN \<Rightarrow> (True, cbs)))"

definition recordWebhookSuccess :: "circuit_breakers \<Rightarrow> string \<Rightarrow> circuit_breakers" where
  "recordWebhookSuccess cbs webhookId =
     (case cbs webhookId of
        None \<Rightarrow> cbs
      | Some circuitState \<Rightarrow>
          cbs(webhookId \<mapsto> \<lparr> failures = 0, lastFailureTime = 0, state = CLOSED \<rparr>))"

definition recordWebhookFailure :: "circuit_breakers \<Rightarrow> string \<Rightarrow> int \<Rightarrow> circuit_breakers" where
  "recordWebhookFailure cbs webhookId now =
     (let circuitState = (case cbs webhookId of
                            None \<Rightarrow> \<lparr> failures = 0, lastFailureTime = 0, state = CLOSED \<rparr>
                          | Some c \<Rightarrow> c);
          counted = circuitState\<lparr> failures := failures circuitState + 1, lastFailureTime := now \<rparr>
      in cbs(webhookId \<mapsto>
           (if failures counted \<ge> CIRCUIT_BREAKER_THRESHOLD
            then counted\<lparr> state := OPEN \<rparr> else counted)))"

subsection \<open>One dispatch to one subscriber\<close>

text \<open>
  What the outside answers during one \<^verbatim>\<open>sendWebhook\<close>: the result of the lookup of the
  subscriber (which may throw), the clock at the gate, the clock put in the payload, the
  outcomes of the POSTs, and the clock when a failure is recorded.
\<close>

record world =
  found :: "webhook_error + external_webhook option"
  gateTime :: int
  payloadTime :: string
  responses :: "nat \<Rightarrow> post_outcome"
  failureTime :: int

definition eventWanted :: "external_webhook \<Rightarrow> string \<Rightarrow> bool" where
  \<comment> \<open>the negation of \<^verbatim>\<open>events && events.length > 0 && !events.includes(eventType)\<close>\<close>
  "eventWanted webhook eventType =
     (case events webhook of
        None \<Rightarrow> True
      | Some evs \<Rightarrow> \<not> (length evs > 0 \<and> eventType \<notin> set evs))"

definition instanceWanted :: "external_webhook \<Rightarrow> string option \<Rightarrow> bool" where
  "instanceWanted webhook instanceName =
     (case filterConfig webhook of
        None \<Rightarrow> True
      | Some fc \<Rightarrow>
          if truthyOpt instanceName
          then (case filterInstances fc of
                  None \<Rightarrow> True
                | Some ns \<Rightarrow> \<not> (length ns > 0 \<and> the instanceName \<notin> set ns)) \<and>
               (case excludeInstances fc of
                  None \<Rightarrow> True
                | Some ns \<Rightarrow> \<not> (length ns > 0 \<and> the instanceName \<in> set ns))
          else True)"

definition sendWebhook ::
  "libraries \<Rightarrow> world \<Rightarrow> circuit_breakers \<Rightarrow> string \<Rightarrow> string \<Rightarrow> string \<Rightarrow> string option
     \<Rightarrow> circuit_breakers \<times> effect list" where
  "sendWebhook lib w cbs webhookId eventType eventData instanceName =
     (case found w of
        Inl e \<Rightarrow> (recordWebhookFailure cbs webhookId (failureTime w), [])
      | Inr None \<Rightarrow> (cbs, [])
      | Inr (Some webhook) \<Rightarrow>
          if \<not> webhook_enabled webhook then (cbs, [])
          else (let (allowed, cbs1) = canExecuteWebhook cbs webhookId (gateTime w)
                in if \<not> allowed then (cbs1, [])
                   else if \<not> eventWanted webhook eventType then (cbs1, [])
                   else if \<not> instanceWanted webhook instanceName then (cbs1, [])
                   else (let payload = \<lparr> payload_event = eventType,
                                         payload_instance = instanceName,
                                         payload_data = eventData,
                                         payload_timestamp = payloadTime w,
                                         payload_webhook_id = webhook_id webhook,
                                         payload_webhook_name = webhook_name webhook \<rparr>;
                             done = executeWebhookRequest lib webhook payload (responses w)
                         in case snd done of
                              None \<Rightarrow> (recordWebhookSuccess cbs1 webhookId, fst done)
                            | Some e \<Rightarrow>
                                (recordWebhookFailure cbs1 webhookId (failureTime w), fst done))))"

text \<open>
  \<^verbatim>\<open>sendWebhook\<close> awaits the delivery, and other dispatches run meanwhile. Its two parts:
  up to the delivery (lookup, gate, filters, payload), with the dispatch admitted to the
  delivery or not; and the delivery with the record of its outcome, on the circuit-breaker
  records as they are when the delivery ends. \<open>sendWebhook_parts\<close> below proves that
  \<open>sendWebhook\<close> is the second part after the first.
\<close>

definition sendWebhook_untilDelivery ::
  "world \<Rightarrow> circuit_breakers \<Rightarrow> string \<Rightarrow> string \<Rightarrow> string \<Rightarrow> string option
     \<Rightarrow> circuit_breakers \<times> (external_webhook \<times> webhook_payload) option" where
  "sendWebhook_untilDelivery w cbs webhookId eventType eventData instanceName =
     (case found w of
        Inl e \<Rightarrow> (recordWebhookFailure cbs webhookId (failureTime w), None)
      | Inr None \<Rightarrow> (cbs, None)
      | Inr (Some webhook) \<Rightarrow>
          if \<not> webhook_enabled webhook then (cbs, None)
          else (let (allowed, cbs1) = canExecuteWebhook cbs webhookId (gateTime w)
                in if \<not> allowed then (cbs1, None)
                   else if \<not> eventWanted webhook eventType then (cbs1, None)
                   else if \<not> instanceWanted webhook instanceName then (cbs1, None)
                   else (cbs1, Some (webhook,
                           \<lparr> payload_event = eventType,
                             payload_instance = instanceName,
                             payload_data = eventData,
                             payload_timestamp = payloadTime w,
                             payload_webhook_id = webhook_id webhook,
                             payload_webhook_name = webhook_name webhook \<rparr>))))"

definition sendWebhook_afterDelivery ::
  "libraries \<Rightarrow> world \<Rightarrow> circuit_breakers \<Rightarrow> string \<Rightarrow> external_webhook \<times> webhook_payload
     \<Rightarrow> circuit_breakers \<times> effect list" where
  "sendWebhook_afterDelivery lib w cbs webhookId admitted =
     (let done = executeWebhookRequest lib (fst admitted) (snd admitted) (responses w)
      in case snd done of
           None \<Rightarrow> (recordWebhookSuccess cbs webhookId, fst done)
         | Some e \<Rightarrow> (recordWebhookFailure cbs webhookId (failureTime w), fst done))"

text \<open>
  A run of dispatches one after the other, each with the answers of the outside; the
  clock does not go back: \<open>inOrder t ds\<close>, for dispatches after time \<open>t\<close>.
\<close>

record dispatch =
  d_webhookId :: string
  d_eventType :: string
  d_eventData :: string
  d_instanceName :: "string option"
  d_world :: world

definition dispatchOne :: "libraries \<Rightarrow> circuit_breakers \<Rightarrow> dispatch \<Rightarrow> circuit_breakers \<times> effect list" where
  "dispatchOne lib cbs d =
     sendWebhook lib (d_world d) cbs (d_webhookId d) (d_eventType d) (d_eventData d)
       (d_instanceName d)"

fun runDispatches :: "libraries \<Rightarrow> circuit_breakers \<Rightarrow> dispatch list \<Rightarrow> circuit_breakers" where
  "runDispatches lib cbs [] = cbs"
| "runDispatches lib cbs (d # ds) = runDispatches lib (fst (dispatchOne lib cbs d)) ds"

fun inOrder :: "int \<Rightarrow> dispatch list \<Rightarrow> bool" where
  "inOrder t [] = True"
| "inOrder t (d # ds) =
     (t \<le> gateTime (d_world d) \<and> gateTime (d_world d) \<le> failureTime (d_world d) \<and>
      inOrder (failureTime (d_world d)) ds)"

subsection \<open>Observations on a delivery\<close>

text \<open>The HTTP status of the response to a POST, when there is a response.\<close>

definition outcomeStatus :: "post_outcome \<Rightarrow> nat option" where
  "outcomeStatus r =
     (case r of
        Resolved st \<Rightarrow> Some st
      | Rejected e \<Rightarrow>
          (case e of AxiosError c st m \<Rightarrow> st | JwtError m \<Rightarrow> None | DatabaseError m \<Rightarrow> None))"

text \<open>A subscriber that answers every POST with 404, and a request to it.\<close>

definition notFound :: "nat \<Rightarrow> post_outcome" where
  "notFound k = Rejected (AxiosError None (Some 404) ''Request failed with status code 404'')"

definition pingRequest :: http_request where
 "pingRequest = \<lparr> req_url = ''https://example.com/hook'',
                 req_headers = [(''Content-Type'', ''application/json'')],
                 req_timeout = 30000,
                 req_body = \<lparr> payload_event = ''MESSAGES_UPSERT'',
       payload_instance = Some ''a'', payload_data = ''ping'',
       payload_timestamp = ''2025-10-17T10:29:29.000Z'',
       payload_webhook_id = ''wh1'', payload_webhook_name = ''hook'' \<rparr> \<rparr>"

section \<open>Concrete subscribers, groups and stores\<close>

text \<open>
  A subscriber with signature validation enabled, no static headers and no authentication,
  and an event for it.
\<close>

definition signedWebhook :: external_webhook where
  "signedWebhook =
     \<lparr> webhook_id = ''wh1'', webhook_name = ''hook'', url = ''https://example.com/hook'',
       webhook_enabled = True, events = None, headers = None, authentication = None,
       retryConfig = None,
       securityConfig = Some \<lparr> enableSignatureValidation = True,
                               signatureSecret = Some ''0123456789abcdef'',
                               signatureHeader = Some ''X-Webhook-Signature'',
                               signatureAlgorithm = Some ''sha256'' \<rparr>,
       filterConfig = None, timeout = 30000 \<rparr>"

definition pingPayload :: webhook_payload where
  "pingPayload = req_body pingRequest"

definition accepted :: "nat \<Rightarrow> post_outcome" where
  "accepted k = Resolved 200"

text \<open>A disabled group with one connected instance, and a balanced send to it.\<close>

definition disabledGroup :: instance_group where
  "disabledGroup =
     \<lparr> group_id = ''g1'', group_name = ''Vendas'', group_alias = ''vendas'',
       description = None, enabled = False, instances = [''a''] \<rparr>"

definition sendToVendas :: send_text_with_group_balancing where
  "sendToVendas = \<lparr> send_alias = ''vendas'', send_number = ''5511999999999'', send_text = ''Teste'' \<rparr>"

text \<open>
  Stores: one with nothing in it and a cache that is not enabled, one with a working
  cache, and one whose cache throws while the in-memory map has a descriptor.
\<close>

definition emptyStore :: controller_state where
  "emptyStore =
     \<lparr> cache = \<lparr> entries = Map.empty, mode = CacheDisabled \<rparr>,
       rotationMemory = Map.empty,
       globalRotationMemory = newGlobalRotation \<rparr>"

definition workingStore :: controller_state where
  "workingStore = emptyStore\<lparr> cache := \<lparr> entries = Map.empty, mode = CacheWorking \<rparr> \<rparr>"

definition usedA :: rotation_data where
  "usedA = \<lparr> usedInstances = [''a''], lastUsedInstance = Some ''a'', rotationCount = 0 \<rparr>"

definition failingStore :: controller_state where
  "failingStore =
     \<lparr> cache = \<lparr> entries = Map.empty, mode = CacheFailing \<rparr>,
       rotationMemory = [''5511'' \<mapsto> usedA],
       globalRotationMemory = newGlobalRotation \<rparr>"

subsection \<open>The steps of a selection, named\<close>

text \<open>
  The descriptor a selection starts from (the one read, or a new one), and the steps of
  the two selections as functions of what was read; \<open>selectInstanceForContact_steps\<close>
  and \<open>selectInstanceForContactInGroup_steps\<close> below prove that the selections are
  these steps followed by the two saves.
\<close>

definition loadedRotation :: "controller_state \<Rightarrow> string \<Rightarrow> rotation_data" where
  "loadedRotation s key =
     (case getRotationDataFromCache s key of None \<Rightarrow> newRotation | Some d \<Rightarrow> d)"

definition resetWhenFull :: "rotation_data \<Rightarrow> nat \<Rightarrow> rotation_data" where
  "resetWhenFull loaded n =
     (if Set_size (usedInstances loaded) \<ge> n
      then loaded\<lparr> usedInstances := [], rotationCount := rotationCount loaded + 1 \<rparr>
      else loaded)"

definition ungroupedPick :: "rotation_data \<Rightarrow> nat \<Rightarrow> string list \<Rightarrow> string" where
  "ungroupedPick rotationInfo globalNextIndex sortedInstances =
     (let firstPass =
            firstMatchFrom
              (\<lambda>candidate. Some candidate \<noteq> lastUsedInstance rotationInfo \<and>
                           \<not> Set_has (usedInstances rotationInfo) candidate)
              sortedInstances globalNextIndex 0;
          secondPass =
            (if truthyOpt firstPass then firstPass
             else firstMatchFrom
                    (\<lambda>candidate. Some candidate \<noteq> lastUsedInstance rotationInfo)
                    sortedInstances globalNextIndex 0)
      in if truthyOpt secondPass then the secondPass
         else sortedInstances ! globalNextIndex)"

definition groupedPick :: "rotation_data \<Rightarrow> global_rotation_data \<Rightarrow> string list \<Rightarrow> string" where
  "groupedPick contactRotationData globalRotationData orderedInstances =
     (let currentGlobalIndex =
            (case globalLastUsedInstance globalRotationData of
               None \<Rightarrow> -1
             | Some l \<Rightarrow> if truthy l then indexOf orderedInstances l else -1);
          nextGlobalIndex = nat ((currentGlobalIndex + 1) mod int (length orderedInstances));
          nextGlobalInstance = orderedInstances ! nextGlobalIndex
      in if Some nextGlobalInstance \<noteq> lastUsedInstance contactRotationData \<and>
            \<not> Set_has (usedInstances contactRotationData) nextGlobalInstance
         then nextGlobalInstance
         else (let unused = find (\<lambda>instance.
                               Some instance \<noteq> lastUsedInstance contactRotationData \<and>
                               \<not> Set_has (usedInstances contactRotationData) instance)
                             orderedInstances;
                   other = find (\<lambda>instance. Some instance \<noteq> lastUsedInstance contactRotationData)
                             orderedInstances
               in if truthyOpt unused then the unused
                  else if truthyOpt other then the other
                  else orderedInstances ! 0))"

definition loadedGlobal :: "controller_state \<Rightarrow> global_rotation_data" where
  "loadedGlobal s = (case getGlobalRotationData s of None \<Rightarrow> newGlobalRotation | Some g \<Rightarrow> g)"

definition ungroupedSaved :: "rotation_data \<Rightarrow> nat \<Rightarrow> string \<Rightarrow> rotation_data" where
  "ungroupedSaved loaded n pick =
     \<lparr> usedInstances =
         Set_add (if n \<le> Set_size (usedInstances loaded) then [] else usedInstances loaded) pick,
       lastUsedInstance = Some pick,
       rotationCount = rotationCount loaded + (if n \<le> Set_size (usedInstances loaded) then 1 else 0) \<rparr>"

definition groupedSaved :: "rotation_data \<Rightarrow> nat \<Rightarrow> string \<Rightarrow> rotation_data" where
  "groupedSaved loaded n pick =
     \<lparr> usedInstances =
         (if n \<le> Set_size (Set_add (usedInstances loaded) pick) then [pick]
          else Set_add (usedInstances loaded) pick),
       lastUsedInstance = Some pick,
       rotationCount = rotationCount loaded + 1 \<rparr>"

definition globalSaved :: "global_rotation_data \<Rightarrow> string \<Rightarrow> global_rotation_data" where
  "globalSaved g pick =
     \<lparr> globalLastUsedInstance = Some pick, globalRotationCount = globalRotationCount g + 1 \<rparr>"

subsection \<open>Comparing stores\<close>

text \<open>
  Two stores hold the same for a contact key: the same cache behaviour, the same cache
  entries under the key of the contact and under the global key, the same in-memory
  entry of the contact and the same in-memory global descriptor.
\<close>

definition sameStoreAt :: "string \<Rightarrow> controller_state \<Rightarrow> controller_state \<Rightarrow> bool" where
  "sameStoreAt k s1 s2 =
     (mode (cache s1) = mode (cache s2) \<and>
      entries (cache s1) (cacheKey k) = entries (cache s2) (cacheKey k) \<and>
      entries (cache s1) GLOBAL_CACHE_KEY = entries (cache s2) GLOBAL_CACHE_KEY \<and>
      rotationMemory s1 k = rotationMemory s2 k \<and>
      globalRotationMemory s1 = globalRotationMemory s2)"

text \<open>The values of a cache entry, without the time of the write.\<close>

definition storedValues :: "cache_data option \<Rightarrow> (string list option \<times> string option \<times> int) option" where
  "storedValues e =
     map_option (\<lambda>d. (cachedUsedInstances d, cachedLastUsedInstance d, cachedRotationCount d)) e"

definition sameValuesAt :: "string \<Rightarrow> controller_state \<Rightarrow> controller_state \<Rightarrow> bool" where
  "sameValuesAt k s1 s2 =
     (rotationMemory s1 k = rotationMemory s2 k \<and>
      globalRotationMemory s1 = globalRotationMemory s2 \<and>
      storedValues (entries (cache s1) (cacheKey k)) = storedValues (entries (cache s2) (cacheKey k)) \<and>
      storedValues (entries (cache s1) GLOBAL_CACHE_KEY) =
        storedValues (entries (cache s2) GLOBAL_CACHE_KEY))"

text \<open>
  A store in the middle of a cycle: the contact 5511 has used \<open>b\<close>, last, in the
  ungrouped path and in group \<open>g1\<close>, and the last instance used overall is \<open>a\<close>.
\<close>

definition usedB :: rotation_data where
  "usedB = \<lparr> usedInstances = [''b''], lastUsedInstance = Some ''b'', rotationCount = 0 \<rparr>"

definition midCycleStore :: controller_state where
  "midCycleStore =
     emptyStore\<lparr> rotationMemory := [''5511'' \<mapsto> usedB, ''group_rotation:g1:5511'' \<mapsto> usedB],
                 globalRotationMemory := \<lparr> globalLastUsedInstance = Some ''a'', globalRotationCount = 1 \<rparr> \<rparr>"


text \<open>
  The store a grouped selection leaves: contact \<^verbatim>\<open>5511@c.us\<close> in group \<open>g1\<close>, first
  selection, pick \<open>a\<close>, working cache, clock readings \<open>t1\<close> and \<open>t2\<close>.
\<close>

definition afterGroupedPick :: controller_state where
  "afterGroupedPick =
     \<lparr> cache =
         \<lparr> entries =
             [''instance_rotation:group_rotation:g1:5511@c.us'' \<mapsto>
                \<lparr> cachedUsedInstances = Some [''a''], cachedLastUsedInstance = Some ''a'',
                  cachedRotationCount = 1, lastUpdated = ''t1'' \<rparr>,
              ''global_rotation'' \<mapsto>
                \<lparr> cachedUsedInstances = None, cachedLastUsedInstance = Some ''a'',
                  cachedRotationCount = 1, lastUpdated = ''t2'' \<rparr>],
           mode = CacheWorking \<rparr>,
       rotationMemory =
         [''group_rotation:g1:5511@c.us'' \<mapsto>
            \<lparr> usedInstances = [''a''], lastUsedInstance = Some ''a'', rotationCount = 1 \<rparr>],
       globalRotationMemory = \<lparr> globalLastUsedInstance = Some ''a'', globalRotationCount = 1 \<rparr> \<rparr>"

subsection \<open>Runs of selections\<close>

text \<open>
  A selection call of either kind, the key of the contact descriptor it works on, and a
  run of calls one after the other from a store, each with its clock readings: the run
  yields the key and the pick of every call, in order.
\<close>

datatype select_call =
    Ungrouped (call_contact: string) (call_instances: "string list")
  | Grouped (call_groupId: string) (call_contact: string) (call_instances: "string list")

definition callKey :: "select_call \<Rightarrow> string" where
  "callKey call =
     (case call of
        Ungrouped c is \<Rightarrow> normalizeContactNumber c
      | Grouped g c is \<Rightarrow> groupContactKey g c)"

definition selectCall ::
  "string \<times> string \<Rightarrow> controller_state \<Rightarrow> select_call \<Rightarrow> string \<times> controller_state" where
  "selectCall clock s call =
     (case call of
        Ungrouped c is \<Rightarrow> selectInstanceForContact clock s c is
      | Grouped g c is \<Rightarrow> selectInstanceForContactInGroup clock s c is g)"

fun runSelects ::
  "controller_state \<Rightarrow> ((string \<times> string) \<times> select_call) list \<Rightarrow> (string \<times> string) list" where
  "runSelects s [] = []"
| "runSelects s ((clock, call) # calls) =
     (callKey call, fst (selectCall clock s call)) # runSelects (snd (selectCall clock s call)) calls"

definition picksFor :: "string \<Rightarrow> (string \<times> string) list \<Rightarrow> string list" where
  "picksFor key run = map snd (filter (\<lambda>kp. fst kp = key) run)"

text \<open>Candidates with at least two different names, none of them empty.\<close>

definition usableCandidates :: "string list \<Rightarrow> bool" where
  "usableCandidates is = ([] \<notin> set is \<and> 2 \<le> length (remdups is))"

definition brokenStore :: controller_state where
  "brokenStore = emptyStore\<lparr> cache := \<lparr> entries = Map.empty, mode = CacheFailing \<rparr> \<rparr>"

text \<open>The last instance of the descriptor a selection for the key would start from.\<close>

definition lastOf :: "controller_state \<Rightarrow> string \<Rightarrow> string option" where
  "lastOf s key = lastUsedInstance (loadedRotation s key)"

subsection \<open>Circuit breaker over a run\<close>

text \<open>
  What holds of every record after dispatches up to time \<open>t\<close>: with the threshold of
  failures reached, the circuit is open, or half-open with the cooldown over.
\<close>

definition breakerInv :: "int \<Rightarrow> circuit_breakers \<Rightarrow> bool" where
  "breakerInv t cbs =
     (\<forall>webhookId c. cbs webhookId = Some c \<longrightarrow> CIRCUIT_BREAKER_THRESHOLD \<le> failures c \<longrightarrow>
        state c = OPEN \<or>
        (state c = HALF_OPEN \<and> CIRCUIT_BREAKER_TIMEOUT < t - lastFailureTime c))"

text \<open>The dispatch reaches the delivery: the subscriber is enabled and its filters match.\<close>

definition delivers :: "external_webhook \<Rightarrow> string \<Rightarrow> string option \<Rightarrow> bool" where
  "delivers webhook eventType instanceName =
     (webhook_enabled webhook \<and> eventWanted webhook eventType \<and>
      instanceWanted webhook instanceName)"

text \<open>The delivery of a dispatch that reaches it: what it does and the error it throws, if any.\<close>

definition deliveryOf ::
  "libraries \<Rightarrow> world \<Rightarrow> external_webhook \<Rightarrow> string \<Rightarrow> string \<Rightarrow> string option
     \<Rightarrow> effect list \<times> webhook_error option" where
  "deliveryOf lib w webhook eventType eventData instanceName =
     executeWebhookRequest lib webhook
       \<lparr> payload_event = eventType, payload_instance = instanceName,
         payload_data = eventData, payload_timestamp = payloadTime w,
         payload_webhook_id = webhook_id webhook,
         payload_webhook_name = webhook_name webhook \<rparr> (responses w)"

text \<open>
  A circuit opened at time 1000 by five failures; an endpoint that answers 500 to every
  POST; and what the outside answers to a dispatch to \<open>signedWebhook\<close> at a given time.
\<close>

definition openBreakers :: circuit_breakers where
  "openBreakers = [''wh1'' \<mapsto> \<lparr> failures = 5, lastFailureTime = 1000, state = OPEN \<rparr>]"

definition halfOpenBreakers :: circuit_breakers where
  "halfOpenBreakers = [''wh1'' \<mapsto> \<lparr> failures = 5, lastFailureTime = 1000, state = HALF_OPEN \<rparr>]"

definition serverError :: "nat \<Rightarrow> post_outcome" where
  "serverError k = Rejected (AxiosError None (Some 500) ''Request failed with status code 500'')"

definition failingWorld :: "int \<Rightarrow> world" where
  "failingWorld t =
     \<lparr> found = Inr (Some signedWebhook), gateTime = t,
       payloadTime = ''2025-10-17T10:29:29.000Z'', responses = serverError,
       failureTime = t + 100 \<rparr>"

text \<open>The same with an endpoint that answers 200.\<close>

definition acceptingWorld :: "int \<Rightarrow> world" where
  "acceptingWorld t =
     \<lparr> found = Inr (Some signedWebhook), gateTime = t,
       payloadTime = ''2025-10-17T10:29:29.000Z'', responses = accepted,
       failureTime = t + 100 \<rparr>"

text \<open>
  Library functions for the closed examples (whose subscribers call none of them), and
  a dispatch of a message event to \<open>signedWebhook\<close> at a given time.
\<close>

definition plainLibraries :: libraries where
  "plainLibraries =
     \<lparr> base64 = (\<lambda>s. s), jwtSign = (\<lambda>secret. Inr secret), hmacHex = (\<lambda>algorithm key message. []) \<rparr>"

definition failingDispatch :: "int \<Rightarrow> dispatch" where
  "failingDispatch t =
     \<lparr> d_webhookId = ''wh1'', d_eventType = ''MESSAGES_UPSERT'', d_eventData = ''ping'',
       d_instanceName = Some ''a'', d_world = failingWorld t \<rparr>"

text \<open>
  Three dispatches that overlap, from a record with 4 failures: the first is let through at
  time 4500 and its delivery is slow; the second starts at 4600 and fails at 4700; then the
  delivery of the first ends, with success.
\<close>

definition fourFailures :: circuit_breakers where
  "fourFailures = [''wh1'' \<mapsto> \<lparr> failures = 4, lastFailureTime = 3100, state = CLOSED \<rparr>]"

definition admittedFirst :: "circuit_breakers \<times> (external_webhook \<times> webhook_payload) option" where
  "admittedFirst =
     sendWebhook_untilDelivery (acceptingWorld 4500) fourFailures ''wh1'' ''MESSAGES_UPSERT'' ''ping''
       (Some ''a'')"

definition afterSecondFails :: circuit_breakers where
  "afterSecondFails = fst (dispatchOne plainLibraries (fst admittedFirst) (failingDispatch 4600))"

definition afterFirstSucceeds :: circuit_breakers where
  "afterFirstSucceeds =
     fst (sendWebhook_afterDelivery plainLibraries (acceptingWorld 4500) afterSecondFails ''wh1''
            (the (snd admittedFirst)))"

text \<open>The same store later: another contact has its descriptor too.\<close>

definition laterStore :: controller_state where
  "laterStore = midCycleStore\<lparr> rotationMemory := (rotationMemory midCycleStore)(''5599'' \<mapsto> usedA) \<rparr>"

section \<open>Alias generation\<close>

lemma unat_hyphen: "unat hyphen = 45"
  by (simp add: hyphen_def)

lemma isAliasChar_hyphen: "isAliasChar hyphen"
  by (simp add: isAliasChar_def unat_hyphen)

lemma isAliasChar_lower: "isAliasChar c \<Longrightarrow> unat c < 128 \<and> toLowerASCII c = c"
  by (auto simp: isAliasChar_def toLowerASCII_def Let_def)

lemma isAliasChar_not_space: "isAliasChar c \<Longrightarrow> \<not> isSpace c"
  by (auto simp: isAliasChar_def isSpace_def Let_def)

lemma concat_map_singleton: "concat (map (\<lambda>x. [f x]) xs) = map f xs"
  by (induction xs) auto

lemma concat_singletons: "concat (map (\<lambda>i. [s ! i]) [0..<length s]) = s"
  by (simp add: concat_map_singleton map_nth)

text \<open>Whatever the Unicode tables say, a string of alias characters is its own lower case.\<close>

lemma toLowerCase_id:
  assumes "list_all isAliasChar s"
  shows "toLowerCase unicode s = s"
proof -
  have "\<And>i. i < length s \<Longrightarrow> unat (s ! i) < 128 \<and> toLowerASCII (s ! i) = s ! i"
    using assms isAliasChar_lower by (simp add: list_all_length)
  then have "map (\<lambda>i. if unat (s ! i) < 128 then [toLowerASCII (s ! i)] else unicode s i)
        [0..<length s] = map (\<lambda>i. [s ! i]) [0..<length s]"
    by (intro map_cong) auto
  then show ?thesis unfolding toLowerCase_def by (simp only: concat_singletons)
qed

lemma replaceRuns_none: "list_all (\<lambda>c. \<not> P c) s \<Longrightarrow> replaceRuns P r s = s"
  by (induction s) auto

lemma dropWhile_hd: "dropWhile P s \<noteq> [] \<Longrightarrow> \<not> P (hd (dropWhile P s))"
  by (simp add: hd_dropWhile)

lemma collapse_noAdjacent: "noAdjacentHyphens (replaceRuns (\<lambda>c. c = hyphen) hyphen s)"
proof (induction "\<lambda>c. c = hyphen" "hyphen" s rule: replaceRuns.induct)
  case 1
  then show ?case by simp
next
  case (2 c cs)
  show ?case
  proof (cases "c = hyphen")
    case True
    let ?d = "dropWhile (\<lambda>c. c = hyphen) cs"
    have ih: "noAdjacentHyphens (replaceRuns (\<lambda>c. c = hyphen) hyphen ?d)"
      using 2(1) True by simp
    have "?d = [] \<or> hd ?d \<noteq> hyphen"
      using dropWhile_hd[of "\<lambda>c. c = hyphen" cs] by blast
    then have "noAdjacentHyphens (hyphen # replaceRuns (\<lambda>c. c = hyphen) hyphen ?d)"
      using ih by (cases ?d) (auto simp del: dropWhile_eq_Nil_conv)
    then show ?thesis using True by simp
  next
    case False
    have ih: "noAdjacentHyphens (replaceRuns (\<lambda>c. c = hyphen) hyphen cs)"
      using 2(2) False by simp
    show ?thesis using False ih
      by (cases "replaceRuns (\<lambda>c. c = hyphen) hyphen cs") auto
  qed
qed

lemma collapse_id: "noAdjacentHyphens s \<Longrightarrow> replaceRuns (\<lambda>c. c = hyphen) hyphen s = s"
proof (induction s rule: noAdjacentHyphens.induct)
  case (1 a b cs)
  then show ?case by auto
qed auto

lemma replaceRuns_chars: "list_all Q s \<Longrightarrow> Q r \<Longrightarrow> list_all Q (replaceRuns P r s)"
proof (induction P r s rule: replaceRuns.induct)
  case (2 P r c cs)
  have "list_all Q (dropWhile P cs)" using 2(3)
    by (metis list.pred_inject(2) list_all_iff set_dropWhileD)
  then show ?case using 2 by auto
qed simp


lemma noAdjacentHyphens_tl: "noAdjacentHyphens (c # cs) \<Longrightarrow> noAdjacentHyphens cs"
  by (cases cs) auto

lemma noAdjacentHyphens_butlast: "noAdjacentHyphens s \<Longrightarrow> noAdjacentHyphens (butlast s)"
  by (induction s rule: noAdjacentHyphens.induct) (auto split: if_splits)

lemma noAdjacentHyphens_last:
  "noAdjacentHyphens s \<Longrightarrow> s \<noteq> [] \<Longrightarrow> last s = hyphen \<Longrightarrow> butlast s \<noteq> [] \<Longrightarrow> last (butlast s) \<noteq> hyphen"
  by (induction s rule: noAdjacentHyphens.induct) (auto split: if_splits)

lemma hd_butlast: "butlast s \<noteq> [] \<Longrightarrow> hd (butlast s) = hd s"
  by (cases s) (auto split: if_splits)

lemma stripEdgeHyphens_shaped:
  assumes "list_all isAliasChar s" "noAdjacentHyphens s"
  shows "aliasShaped (stripEdgeHyphens s)"
proof -
  define s1 where "s1 = (case s of [] \<Rightarrow> [] | c # cs \<Rightarrow> if c = hyphen then cs else s)"
  have c1: "list_all isAliasChar s1" using assms(1) by (auto simp: s1_def split: list.splits)
  have n1: "noAdjacentHyphens s1" using assms(2) noAdjacentHyphens_tl
    by (auto simp: s1_def split: list.splits)
  have h1: "s1 \<noteq> [] \<Longrightarrow> hd s1 \<noteq> hyphen"
  proof (cases s)
    case Nil then show "s1 \<noteq> [] \<Longrightarrow> ?thesis" by (simp add: s1_def)
  next
    case (Cons c cs)
    assume ne: "s1 \<noteq> []"
    show ?thesis
    proof (cases "c = hyphen")
      case True
      then have "s1 = cs" by (simp add: s1_def Cons)
      then show ?thesis using ne assms(2) Cons True by (cases cs) auto
    next
      case False
      then show ?thesis by (simp add: s1_def Cons)
    qed
  qed
  have eq: "stripEdgeHyphens s = (if s1 \<noteq> [] \<and> last s1 = hyphen then butlast s1 else s1)"
    by (simp add: stripEdgeHyphens_def s1_def)
  show ?thesis
  proof (cases "s1 \<noteq> [] \<and> last s1 = hyphen")
    case True
    have "list_all isAliasChar (butlast s1)" using c1
      by (metis in_set_butlastD list_all_iff)
    moreover have "noAdjacentHyphens (butlast s1)" using n1 by (rule noAdjacentHyphens_butlast)
    moreover have "butlast s1 \<noteq> [] \<Longrightarrow> hd (butlast s1) \<noteq> hyphen"
      using h1 True hd_butlast by metis
    moreover have "butlast s1 \<noteq> [] \<Longrightarrow> last (butlast s1) \<noteq> hyphen"
      using noAdjacentHyphens_last[OF n1] True by blast
    ultimately show ?thesis using True eq by (auto simp: aliasShaped_def)
  next
    case False
    then show ?thesis using eq c1 n1 h1 by (auto simp: aliasShaped_def)
  qed
qed

lemma transformToAlias_shaped: "aliasShaped (transformToAlias unicode x)"
  unfolding transformToAlias_def
  by (intro stripEdgeHyphens_shaped replaceRuns_chars collapse_noAdjacent)
     (auto simp: isAliasChar_hyphen list_all_iff)

lemma stripEdgeHyphens_id:
  "s \<noteq> [] \<longrightarrow> hd s \<noteq> hyphen \<and> last s \<noteq> hyphen \<Longrightarrow> stripEdgeHyphens s = s"
  by (cases s) (auto simp: stripEdgeHyphens_def)

lemma transformToAlias_fixed: "aliasShaped s \<Longrightarrow> transformToAlias unicode s = s"
proof -
  assume a: "aliasShaped s"
  then have c: "list_all isAliasChar s" and n: "noAdjacentHyphens s"
    and e: "s \<noteq> [] \<longrightarrow> hd s \<noteq> hyphen \<and> last s \<noteq> hyphen"
    by (auto simp: aliasShaped_def)
  have "list_all (\<lambda>c. \<not> isSpace c) s" using c isAliasChar_not_space by (auto simp: list_all_iff)
  then have 1: "replaceRuns isSpace hyphen (toLowerCase unicode s) = s"
    by (simp add: toLowerCase_id[OF c] replaceRuns_none)
  have 2: "filter isAliasChar s = s" using c by (simp add: list_all_iff)
  show ?thesis
    by (simp add: transformToAlias_def 1 2 collapse_id[OF n] stripEdgeHyphens_id[OF e])
qed

lemma transformToAlias_example:
  "transformToAlias sampleTables (ofString ''  Grupo  Vendas -- 2025! '') =
     ofString ''grupo-vendas-2025''"
  by (simp add: transformToAlias_def stripEdgeHyphens_def toLowerCase_def toLowerASCII_def
      isSpace_def isAliasChar_def ofString_def hyphen_def sampleTables_def upt_rec)

text \<open>
  A name with code units above U+00FF: Kelvin sign, capital I with dot above, ideographic
  space, \<^verbatim>\<open>C\<close>, U+00C9, en quad, em quad, \<^verbatim>\<open>Z\<close>. The alias is \<^verbatim>\<open>ki-c-z\<close>.
\<close>

lemma transformToAlias_example_unicode:
  "transformToAlias sampleTables [8490, 304, 12288, 67, 201, 8192, 8193, 90] =
     [107, 105, 45, 99, 45, 122]"
  by (simp add: transformToAlias_def stripEdgeHyphens_def toLowerCase_def toLowerASCII_def
      isSpace_def isAliasChar_def hyphen_def sampleTables_def upt_rec)

text \<open>
  Claim C9. Alias generation is idempotent: for every input string \<open>x\<close> (any list of 16-bit
  code units) and whatever the Unicode case tables of the runtime are, \<open>transformToAlias\<close>
  applied to its own result returns that result; and the result is the empty string or
  matches \<^verbatim>\<open>^[a-z0-9-]+$\<close>.
\<close>

theorem transformToAlias_idempotent_and_shape:
  "transformToAlias unicode (transformToAlias unicode x) = transformToAlias unicode x \<and>
   (transformToAlias unicode x = [] \<or> matchesAliasPattern (transformToAlias unicode x))"
  using transformToAlias_fixed[OF transformToAlias_shaped[of unicode x]]
    transformToAlias_shaped[of unicode x]
  by (auto simp: aliasShaped_def matchesAliasPattern_def)

section \<open>The retry loop\<close>

lemma posts_simps [simp]:
  "posts [] = 0"
  "posts (HttpPost r # effs) = Suc (posts effs)"
  "posts (UpdateStats ok m # effs) = posts effs"
  "posts (Sleep # effs) = posts effs"
  by (simp_all add: posts_def isHttpPost_def)

lemma retryLoop_posts_le:
  "posts (fst (retryLoop req m codes rs a)) \<le> m - a"
proof (induction req m codes rs a rule: retryLoop.induct)
  case (1 req m codes rs a)
  show ?case
  proof (cases "a < m")
    case False
    then show ?thesis by (simp add: retryLoop.simps)
  next
    case True
    show ?thesis
    proof (cases "rs a")
      case (Resolved st)
      then show ?thesis using True by (simp add: retryLoop.simps)
    next
      case (Rejected e)
      show ?thesis
      proof (cases "isNonRetryable codes e \<or> a + 1 = m")
        case True
        then show ?thesis using \<open>a < m\<close> Rejected by (auto simp add: retryLoop.simps)
      next
        case False
        then have ih: "posts (fst (retryLoop req m codes rs (a + 1))) \<le> m - (a + 1)"
          using 1 True Rejected by simp
        have "retryLoop req m codes rs a =
                (HttpPost req # Sleep # fst (retryLoop req m codes rs (a + 1)),
                 snd (retryLoop req m codes rs (a + 1)))"
          using True Rejected False by (subst retryLoop.simps) (simp add: Let_def)
        then show ?thesis using ih True by simp
      qed
    qed
  qed
qed

lemma retryLoop_stops:
  "a \<le> k \<Longrightarrow> outcomeStatus (rs k) = Some st \<Longrightarrow> 0 < st \<Longrightarrow> st \<in> set codes
     \<Longrightarrow> posts (fst (retryLoop req m codes rs a)) \<le> k + 1 - a"
proof (induction req m codes rs a rule: retryLoop.induct)
  case (1 req m codes rs a)
  show ?case
  proof (cases "a < m")
    case False
    then show ?thesis by (simp add: retryLoop.simps)
  next
    case True
    show ?thesis
    proof (cases "rs a")
      case (Resolved st)
      then show ?thesis using True 1(2) by (simp add: retryLoop.simps)
    next
      case (Rejected e)
      show ?thesis
      proof (cases "isNonRetryable codes e \<or> a + 1 = m")
        case True
        then show ?thesis using \<open>a < m\<close> Rejected 1(2) by (auto simp add: retryLoop.simps)
      next
        case False
        have "a \<noteq> k"
        proof
          assume "a = k"
          then have "isNonRetryable codes e"
            using 1(3,4,5) Rejected
            by (auto simp: outcomeStatus_def isNonRetryable_def split: webhook_error.splits)
          then show False using False by simp
        qed
        then have "a + 1 \<le> k" using 1(2) by simp
        then have ih: "posts (fst (retryLoop req m codes rs (a + 1))) \<le> k + 1 - (a + 1)"
          using 1(1)[OF True Rejected] False 1(3,4,5) by simp
        have "retryLoop req m codes rs a =
                (HttpPost req # Sleep # fst (retryLoop req m codes rs (a + 1)),
                 snd (retryLoop req m codes rs (a + 1)))"
          using True Rejected False by (subst retryLoop.simps) (simp add: Let_def)
        then show ?thesis using ih \<open>a + 1 \<le> k\<close> by simp
      qed
    qed
  qed
qed

lemma retryLoop_first_post:
  "a < m \<Longrightarrow> 1 \<le> posts (fst (retryLoop req m codes rs a))"
  by (subst retryLoop.simps) (auto simp: Let_def split: post_outcome.splits)

lemma maxRetryAttemptsOf_pos: "1 \<le> maxRetryAttemptsOf cfg"
  by (auto simp: maxRetryAttemptsOf_def split: option.splits)

text \<open>
  Claim C8. One delivery makes at most \<open>maxAttempts\<close> POST requests (3 when the
  configuration gives none), and no request follows a response whose status is in
  \<open>nonRetryableStatusCodes\<close>: such a response to the request number \<open>k + 1\<close> leaves
  at most \<open>k + 1\<close> requests, and to the first request exactly one.
\<close>

theorem retry_bound_and_no_retry:
  "posts (fst (retryWebhookRequest req cfg rs)) \<le> maxRetryAttemptsOf cfg \<and>
   (\<forall>r n. cfg = Some r \<and> maxAttempts r = Some n \<and> 1 \<le> n
      \<longrightarrow> posts (fst (retryWebhookRequest req cfg rs)) \<le> n) \<and>
   (\<forall>k st. outcomeStatus (rs k) = Some st \<and> 0 < st \<and> st \<in> set (nonRetryableStatusCodesOf cfg)
      \<longrightarrow> posts (fst (retryWebhookRequest req cfg rs)) \<le> k + 1) \<and>
   (\<forall>st. outcomeStatus (rs 0) = Some st \<and> 0 < st \<and> st \<in> set (nonRetryableStatusCodesOf cfg)
      \<longrightarrow> posts (fst (retryWebhookRequest req cfg rs)) = 1)"
proof -
  let ?n = "posts (fst (retryWebhookRequest req cfg rs))"
  have b: "?n \<le> maxRetryAttemptsOf cfg"
    using retryLoop_posts_le[of req "maxRetryAttemptsOf cfg" _ rs 0]
    by (simp add: retryWebhookRequest_def)
  have c: "\<And>r n. cfg = Some r \<Longrightarrow> maxAttempts r = Some n \<Longrightarrow> 1 \<le> n \<Longrightarrow> ?n \<le> n"
    using b by (auto simp: maxRetryAttemptsOf_def)
  have d: "\<And>k st. outcomeStatus (rs k) = Some st \<Longrightarrow> 0 < st
             \<Longrightarrow> st \<in> set (nonRetryableStatusCodesOf cfg) \<Longrightarrow> ?n \<le> k + 1"
    using retryLoop_stops[of 0 _ rs] by (fastforce simp: retryWebhookRequest_def)
  have e: "1 \<le> ?n"
    using retryLoop_first_post[of 0 "maxRetryAttemptsOf cfg"] maxRetryAttemptsOf_pos[of cfg]
    by (simp add: retryWebhookRequest_def)
  show ?thesis using b c d[of 0] d e by (auto simp: le_antisym)
qed

theorem retry_bound_and_no_retry_witness:
  "outcomeStatus (notFound 0) = Some 404 \<and> (0::nat) < 404 \<and>
   404 \<in> set (nonRetryableStatusCodesOf (Some \<lparr> maxAttempts = Some 5, nonRetryableStatusCodes = Some [404] \<rparr>)) \<and>
   maxAttempts \<lparr> maxAttempts = Some 5, nonRetryableStatusCodes = Some [404] \<rparr> = Some 5 \<and> (1::nat) \<le> 5 \<and>
   posts (fst (retryWebhookRequest pingRequest
     (Some \<lparr> maxAttempts = Some 5, nonRetryableStatusCodes = Some [404] \<rparr>) notFound)) = 1"
  using retry_bound_and_no_retry[of pingRequest
     "Some \<lparr> maxAttempts = Some 5, nonRetryableStatusCodes = Some [404] \<rparr>" notFound]
  by (simp add: outcomeStatus_def notFound_def nonRetryableStatusCodesOf_def)

section \<open>Request signature\<close>

lemma executeWebhookRequest_ignores_securityConfig:
  "executeWebhookRequest lib (webhook\<lparr> securityConfig := sc \<rparr>) payload rs =
   executeWebhookRequest lib webhook payload rs"
  by (simp add: executeWebhookRequest_def split: sum.splits)

text \<open>
  Claim C1 (not met by the code). The subscriber has signature validation enabled with
  header \<^verbatim>\<open>X-Webhook-Signature\<close>; the one request of the delivery carries the
  \<^verbatim>\<open>Content-Type\<close> header only, so no header of that name and no HMAC of the body.
\<close>

theorem signature_header_not_sent:
  "executeWebhookRequest lib signedWebhook pingPayload accepted =
     ([HttpPost \<lparr> req_url = ''https://example.com/hook'',
                  req_headers = [(''Content-Type'', ''application/json'')],
                  req_timeout = 30000,
                  req_body = pingPayload \<rparr>,
       UpdateStats True None], None) \<and>
   map_of [(''Content-Type'', ''application/json'')] ''X-Webhook-Signature'' = None"
  by (simp add: executeWebhookRequest_def signedWebhook_def accepted_def spread_def
      configureAuthentication_def retryWebhookRequest_def retryLoop.simps
      maxRetryAttemptsOf_def nonRetryableStatusCodesOf_def)

section \<open>Balanced send to a disabled group\<close>

lemma disabled_group_is_not_found:
  assumes "find (\<lambda>g. group_alias g = send_alias data) repository = Some g"
    and "find (\<lambda>h. group_id h = group_id g \<and> enabled h) repository = None"
  shows "sendTextWithGroupBalancing clock (Some repository) waInstances textMessage s data =
           (Inl (NotFoundException ''Instance group not found or disabled''), s)"
  using assms by (simp add: sendTextWithGroupBalancing_def findByAlias_def getActiveInstances_def)

text \<open>
  Claim C3 (not met by the code). The balanced send to the alias of a disabled group ends
  with \<^verbatim>\<open>NotFoundException\<close>, status 404, whatever the instances, the store and the send.
\<close>

theorem disabled_group_send_is_404:
  "fst (sendTextWithGroupBalancing clock (Some [disabledGroup]) waInstances textMessage s sendToVendas)
     = Inl (NotFoundException ''Instance group not found or disabled'') \<and>
   responseStatus
     (fst (sendTextWithGroupBalancing clock (Some [disabledGroup]) waInstances textMessage s sendToVendas))
     = 404"
  by (simp add: sendTextWithGroupBalancing_def findByAlias_def getActiveInstances_def
      disabledGroup_def sendToVendas_def responseStatus_def httpStatus_def)

section \<open>The rotation store\<close>



lemma orNull_Some: "s \<noteq> [] \<Longrightarrow> orNull (Some s) = Some s"
  by (simp add: orNull_def truthy_def)






lemma save_mode [simp]: "mode (cache (saveRotationDataToCache now s k d)) = mode (cache s)"
  by (cases "mode (cache s)") (simp_all add: saveRotationDataToCache_def cache_set_def)

lemma saveGlobal_mode [simp]: "mode (cache (saveGlobalRotationData now s g)) = mode (cache s)"
  by (cases "mode (cache s)") (simp_all add: saveGlobalRotationData_def cache_set_def)

lemma get_after_save:
  assumes "mode (cache s) \<noteq> CacheFailing"
  shows "getRotationDataFromCache (saveRotationDataToCache now s k d) k =
           Some \<lparr> usedInstances = (if mode (cache s) = CacheWorking
                                    then new_Set (usedInstances d) else usedInstances d),
                  lastUsedInstance = (if mode (cache s) = CacheWorking
                                    then orNull (lastUsedInstance d) else lastUsedInstance d),
                  rotationCount = rotationCount d \<rparr>"
  using assms
  by (cases "mode (cache s)")
     (simp_all add: getRotationDataFromCache_def saveRotationDataToCache_def cache_set_def
        cache_get_def)




section \<open>What a selection writes\<close>

lemma cacheKey_inj [simp]: "(cacheKey k = cacheKey k') = (k = k')"
  by (simp add: cacheKey_def)

lemma cacheKey_not_global [simp]:
  "cacheKey k \<noteq> GLOBAL_CACHE_KEY" "GLOBAL_CACHE_KEY \<noteq> cacheKey k"
  by (simp_all add: cacheKey_def GLOBAL_CACHE_KEY_def CACHE_KEY_PREFIX_def)

lemma rotation_data_eta [simp]:
  "\<lparr> usedInstances = usedInstances d, lastUsedInstance = lastUsedInstance d,
     rotationCount = rotationCount d \<rparr> = d"
  by (cases d) simp

lemma global_rotation_data_eta [simp]:
  "\<lparr> globalLastUsedInstance = globalLastUsedInstance g,
     globalRotationCount = globalRotationCount g \<rparr> = g"
  by (cases g) simp

lemma save_rotationMemory:
  "rotationMemory (saveRotationDataToCache now s k d) =
     (if mode (cache s) = CacheFailing then rotationMemory s else (rotationMemory s)(k \<mapsto> d))"
  by (cases "mode (cache s)") (simp_all add: saveRotationDataToCache_def cache_set_def)

lemma save_entries:
  "entries (cache (saveRotationDataToCache now s k d)) =
     (if mode (cache s) = CacheWorking
      then (entries (cache s))(cacheKey k \<mapsto>
             \<lparr> cachedUsedInstances = Some (usedInstances d),
               cachedLastUsedInstance = lastUsedInstance d,
               cachedRotationCount = rotationCount d, lastUpdated = now \<rparr>)
      else entries (cache s))"
  by (cases "mode (cache s)") (simp_all add: saveRotationDataToCache_def cache_set_def)

lemma save_globalRotationMemory [simp]:
  "globalRotationMemory (saveRotationDataToCache now s k d) = globalRotationMemory s"
  by (cases "mode (cache s)") (simp_all add: saveRotationDataToCache_def cache_set_def)

lemma saveGlobal_rotationMemory [simp]:
  "rotationMemory (saveGlobalRotationData now s g) = rotationMemory s"
  by (cases "mode (cache s)") (simp_all add: saveGlobalRotationData_def cache_set_def)

lemma saveGlobal_entries:
  "entries (cache (saveGlobalRotationData now s g)) =
     (if mode (cache s) = CacheWorking
      then (entries (cache s))(GLOBAL_CACHE_KEY \<mapsto>
             \<lparr> cachedUsedInstances = None,
               cachedLastUsedInstance = globalLastUsedInstance g,
               cachedRotationCount = globalRotationCount g, lastUpdated = now \<rparr>)
      else entries (cache s))"
  by (cases "mode (cache s)") (simp_all add: saveGlobalRotationData_def cache_set_def)

lemma saveGlobal_globalRotationMemory:
  "globalRotationMemory (saveGlobalRotationData now s g) =
     (if mode (cache s) = CacheFailing then globalRotationMemory s else g)"
  by (cases "mode (cache s)") (simp_all add: saveGlobalRotationData_def cache_set_def)

lemma resetWhenFull_saved:
  "(resetWhenFull loaded n)\<lparr> usedInstances := Set_add (usedInstances (resetWhenFull loaded n)) pick,
                             lastUsedInstance := Some pick \<rparr> = ungroupedSaved loaded n pick"
  by (cases loaded) (simp add: resetWhenFull_def ungroupedSaved_def)

lemma selectInstanceForContact_steps:
  "selectInstanceForContact clock s c is =
     (let k = normalizeContactNumber c;
          pick = ungroupedPick (resetWhenFull (loadedRotation s k) (length is))
                   (globalNextIndexOf (getGlobalRotationData s) (sort is)) (sort is)
      in (pick,
          saveGlobalRotationData (snd clock)
            (saveRotationDataToCache (fst clock) s k (ungroupedSaved (loadedRotation s k) (length is) pick))
            \<lparr> globalLastUsedInstance = Some pick,
              globalRotationCount =
                (case getGlobalRotationData s of None \<Rightarrow> 0 | Some g \<Rightarrow> globalRotationCount g) + 1 \<rparr>))"
  unfolding selectInstanceForContact_def ungroupedPick_def loadedRotation_def Let_def
    resetWhenFull_saved[symmetric]
  by (simp add: resetWhenFull_def)

lemma selectInstanceForContactInGroup_steps:
  "selectInstanceForContactInGroup clock s c is g =
     (let k = groupContactKey g c;
          pick = groupedPick (loadedRotation s k) (loadedGlobal s) (sort is)
      in (pick,
          saveGlobalRotationData (snd clock)
            (saveRotationDataToCache (fst clock) s k (groupedSaved (loadedRotation s k) (length is) pick))
            (globalSaved (loadedGlobal s) pick)))"
  unfolding selectInstanceForContactInGroup_def groupedPick_def loadedRotation_def loadedGlobal_def
    groupedSaved_def globalSaved_def Let_def
  by simp






lemmas store_eval =
  emptyStore_def workingStore_def failingStore_def newRotation_def newGlobalRotation_def
  getRotationDataFromCache_def getGlobalRotationData_def saveRotationDataToCache_def
  saveGlobalRotationData_def cache_get_def cache_set_def cacheKey_def CACHE_KEY_PREFIX_def
  GLOBAL_CACHE_KEY_def GROUP_CACHE_KEY_PREFIX_def groupContactKey_def normalizeContactNumber_def
  isDigit_def loadedRotation_def loadedGlobal_def

lemmas pick_eval =
  ungroupedPick_def groupedPick_def resetWhenFull_def ungroupedSaved_def groupedSaved_def
  globalSaved_def globalNextIndexOf_def firstMatchFrom.simps truthyOpt_def truthy_def
  Set_has_def Set_add_def Set_size_def new_Set_def orNull_def Let_def










section \<open>Keys of the two selections\<close>

lemma get_frame_save:
  "k \<noteq> k' \<Longrightarrow> getRotationDataFromCache (saveRotationDataToCache now s k' d) k =
                 getRotationDataFromCache s k"
  by (cases "mode (cache s)")
     (simp_all add: getRotationDataFromCache_def saveRotationDataToCache_def cache_get_def
        cache_set_def split: option.splits)

lemma get_frame_saveGlobal:
  "getRotationDataFromCache (saveGlobalRotationData now s g) k = getRotationDataFromCache s k"
  by (cases "mode (cache s)")
     (simp_all add: getRotationDataFromCache_def saveGlobalRotationData_def cache_get_def
        cache_set_def split: option.splits)

lemma grouped_frame:
  "k \<noteq> groupContactKey g c \<Longrightarrow>
   getRotationDataFromCache (snd (selectInstanceForContactInGroup clock s c is g)) k =
     getRotationDataFromCache s k \<and>
   rotationMemory (snd (selectInstanceForContactInGroup clock s c is g)) k = rotationMemory s k"
  by (simp add: selectInstanceForContactInGroup_steps Let_def get_frame_saveGlobal
      get_frame_save save_rotationMemory)

lemma ungrouped_frame:
  "k \<noteq> normalizeContactNumber c \<Longrightarrow>
   getRotationDataFromCache (snd (selectInstanceForContact clock s c is)) k =
     getRotationDataFromCache s k \<and>
   rotationMemory (snd (selectInstanceForContact clock s c is)) k = rotationMemory s k"
  by (simp add: selectInstanceForContact_steps Let_def get_frame_saveGlobal
      get_frame_save save_rotationMemory)

lemma grouped_reads:
  "getRotationDataFromCache s2 (groupContactKey g c) =
     getRotationDataFromCache s (groupContactKey g c) \<Longrightarrow>
   getGlobalRotationData s2 = getGlobalRotationData s \<Longrightarrow>
   fst (selectInstanceForContactInGroup clock2 s2 c is g) =
     fst (selectInstanceForContactInGroup clock s c is g)"
  by (simp add: selectInstanceForContactInGroup_steps Let_def loadedRotation_def loadedGlobal_def)

lemma ungrouped_reads:
  "getRotationDataFromCache s2 (normalizeContactNumber c) =
     getRotationDataFromCache s (normalizeContactNumber c) \<Longrightarrow>
   getGlobalRotationData s2 = getGlobalRotationData s \<Longrightarrow>
   fst (selectInstanceForContact clock2 s2 c is) = fst (selectInstanceForContact clock s c is)"
  by (simp add: selectInstanceForContact_steps Let_def loadedRotation_def)

lemma midCycle_eval:
  "getRotationDataFromCache midCycleStore ''5511'' = Some usedB"
  "getRotationDataFromCache midCycleStore ''group_rotation:g1:5511'' = Some usedB"
  "getGlobalRotationData midCycleStore =
     Some \<lparr> globalLastUsedInstance = Some ''a'', globalRotationCount = 1 \<rparr>"
  by (simp_all add: midCycleStore_def store_eval)

text \<open>
  The two selections are written separately: from the same contact descriptor and the same
  global descriptor the ungrouped scan picks \<open>c\<close> and the grouped selection \<open>a\<close>.
\<close>

lemma midCycle_picks:
  "fst (selectInstanceForContact (''t1'', ''t2'') midCycleStore ''5511'' [''a'', ''b'', ''c'']) = ''c''"
  "fst (selectInstanceForContactInGroup (''t1'', ''t2'') midCycleStore ''5511'' [''a'', ''b'', ''c''] ''g1'')
     = ''a''"
  by (simp_all add: selectInstanceForContact_steps selectInstanceForContactInGroup_steps
      loadedRotation_def loadedGlobal_def midCycle_eval normalizeContactNumber_def isDigit_def
      groupContactKey_def GROUP_CACHE_KEY_PREFIX_def usedB_def pick_eval)

lemma grouped_working_pick:
  "selectInstanceForContactInGroup (''t1'', ''t2'') workingStore ''5511@c.us'' [''a'', ''b''] ''g1'' =
     (''a'', afterGroupedPick)"
  by (simp add: selectInstanceForContactInGroup_steps store_eval pick_eval usedA_def
      afterGroupedPick_def)

lemma ungrouped_after_grouped:
  "fst (selectInstanceForContact (''t3'', ''t4'') workingStore ''5522'' [''a'', ''b'']) = ''a''"
  "fst (selectInstanceForContact (''t3'', ''t4'') afterGroupedPick ''5522'' [''a'', ''b'']) = ''b''"
  by (simp_all add: selectInstanceForContact_steps store_eval pick_eval afterGroupedPick_def)

text \<open>
  Claim C2, at one grouped selection: group \<open>g1\<close> with the instances \<open>a\<close> and \<open>b\<close>,
  contact \<^verbatim>\<open>5511@c.us\<close>, nothing stored yet, a working cache. The selection picks \<open>a\<close> and
  leaves the store \<open>afterGroupedPick\<close>: the global descriptor is written under
  \<^verbatim>\<open>global_rotation\<close>, the key of the ungrouped path, and nothing is written under
  \<^verbatim>\<open>group_rotation:g1:global\<close>; the contact descriptor is written under the key with the
  contact as passed, \<^verbatim>\<open>group_rotation:g1:5511@c.us\<close>, and nothing under the key with its
  digits, \<^verbatim>\<open>group_rotation:g1:5511\<close>; and the next ungrouped selection, for another contact,
  picks \<open>b\<close> where it picks \<open>a\<close> without the grouped selection before it. The claim says
  that the global descriptor is under \<^verbatim>\<open>group_rotation:g1:global\<close>, the contact
  descriptor under the key of the normalised contact, and that the two paths share no state.
\<close>

theorem grouped_selection_shares_global_key:
  "selectInstanceForContactInGroup (''t1'', ''t2'') workingStore ''5511@c.us'' [''a'', ''b''] ''g1'' =
     (''a'', afterGroupedPick) \<and>
   storedValues (entries (cache afterGroupedPick) ''global_rotation'') = Some (None, Some ''a'', 1) \<and>
   globalRotationMemory afterGroupedPick =
     \<lparr> globalLastUsedInstance = Some ''a'', globalRotationCount = 1 \<rparr> \<and>
   entries (cache afterGroupedPick) (groupGlobalKey ''g1'') = None \<and>
   entries (cache afterGroupedPick) (cacheKey (groupGlobalKey ''g1'')) = None \<and>
   rotationMemory afterGroupedPick (groupGlobalKey ''g1'') = None \<and>
   rotationMemory afterGroupedPick ''group_rotation:g1:5511@c.us'' =
     Some \<lparr> usedInstances = [''a''], lastUsedInstance = Some ''a'', rotationCount = 1 \<rparr> \<and>
   normalizeContactNumber ''5511@c.us'' = ''5511'' \<and>
   getRotationDataFromCache afterGroupedPick (groupContactKey ''g1'' (normalizeContactNumber ''5511@c.us''))
     = None \<and>
   fst (selectInstanceForContact (''t3'', ''t4'') workingStore ''5522'' [''a'', ''b'']) = ''a'' \<and>
   fst (selectInstanceForContact (''t3'', ''t4'') afterGroupedPick ''5522'' [''a'', ''b'']) = ''b''"
  unfolding grouped_working_pick ungrouped_after_grouped
  by (simp add: afterGroupedPick_def storedValues_def groupGlobalKey_def store_eval)

section \<open>Determinism of the selection\<close>

lemma sameStoreAt_reads:
  assumes "sameStoreAt k s1 s2"
  shows "getRotationDataFromCache s1 k = getRotationDataFromCache s2 k"
    and "getGlobalRotationData s1 = getGlobalRotationData s2"
proof -
  have m: "mode (cache s1) = mode (cache s2)"
    and e: "entries (cache s1) (cacheKey k) = entries (cache s2) (cacheKey k)"
    and eg: "entries (cache s1) GLOBAL_CACHE_KEY = entries (cache s2) GLOBAL_CACHE_KEY"
    and r: "rotationMemory s1 k = rotationMemory s2 k"
    and g: "globalRotationMemory s1 = globalRotationMemory s2"
    using assms by (simp_all add: sameStoreAt_def)
  show "getRotationDataFromCache s1 k = getRotationDataFromCache s2 k"
    by (cases "mode (cache s2)") (simp_all add: getRotationDataFromCache_def cache_get_def m e r split: option.splits)
  show "getGlobalRotationData s1 = getGlobalRotationData s2"
    by (cases "mode (cache s2)") (simp_all add: getGlobalRotationData_def cache_get_def m eg g split: option.splits)
qed

lemma saves_sameValuesAt:
  assumes "sameStoreAt k s1 s2"
  shows "sameValuesAt k
           (saveGlobalRotationData n2 (saveRotationDataToCache n1 s1 k d) g)
           (saveGlobalRotationData m2 (saveRotationDataToCache m1 s2 k d) g)"
proof -
  have m: "mode (cache s1) = mode (cache s2)"
    and e: "entries (cache s1) (cacheKey k) = entries (cache s2) (cacheKey k)"
    and eg: "entries (cache s1) GLOBAL_CACHE_KEY = entries (cache s2) GLOBAL_CACHE_KEY"
    and r: "rotationMemory s1 k = rotationMemory s2 k"
    and g: "globalRotationMemory s1 = globalRotationMemory s2"
    using assms by (simp_all add: sameStoreAt_def)
  show ?thesis
    by (simp add: sameValuesAt_def save_rotationMemory save_entries
        saveGlobal_entries saveGlobal_globalRotationMemory storedValues_def m e eg r g)
qed

text \<open>
  Claim C10. Two selections for the same contact and the same list of candidates, from
  stores that hold the same for the contact, at any two times: the same instance is
  selected, and the same \<open>usedInstances\<close>, \<open>lastUsedInstance\<close> and \<open>rotationCount\<close> are
  written, in memory and in the cache, for the contact and for the global descriptor.
  The clock readings, the only input of a selection besides these, reach \<open>lastUpdated\<close>
  alone.
\<close>

theorem selection_deterministic:
  "(sameStoreAt (normalizeContactNumber c) s1 s2 \<and> is \<noteq> [] \<longrightarrow>
      fst (selectInstanceForContact clock1 s1 c is) = fst (selectInstanceForContact clock2 s2 c is) \<and>
      sameValuesAt (normalizeContactNumber c)
        (snd (selectInstanceForContact clock1 s1 c is))
        (snd (selectInstanceForContact clock2 s2 c is))) \<and>
   (sameStoreAt (groupContactKey g c) s1 s2 \<and> is \<noteq> [] \<longrightarrow>
      fst (selectInstanceForContactInGroup clock1 s1 c is g) =
        fst (selectInstanceForContactInGroup clock2 s2 c is g) \<and>
      sameValuesAt (groupContactKey g c)
        (snd (selectInstanceForContactInGroup clock1 s1 c is g))
        (snd (selectInstanceForContactInGroup clock2 s2 c is g)))"
proof (intro conjI impI)
  assume "sameStoreAt (normalizeContactNumber c) s1 s2 \<and> is \<noteq> []"
  then have a: "sameStoreAt (normalizeContactNumber c) s1 s2" by simp
  note r = sameStoreAt_reads[OF a]
  show "fst (selectInstanceForContact clock1 s1 c is) = fst (selectInstanceForContact clock2 s2 c is)"
    using r by (rule ungrouped_reads)
  show "sameValuesAt (normalizeContactNumber c)
        (snd (selectInstanceForContact clock1 s1 c is))
        (snd (selectInstanceForContact clock2 s2 c is))"
    using saves_sameValuesAt[OF a] r
    by (simp add: selectInstanceForContact_steps Let_def loadedRotation_def)
next
  assume "sameStoreAt (groupContactKey g c) s1 s2 \<and> is \<noteq> []"
  then have a: "sameStoreAt (groupContactKey g c) s1 s2" by simp
  note r = sameStoreAt_reads[OF a]
  show "fst (selectInstanceForContactInGroup clock1 s1 c is g) =
        fst (selectInstanceForContactInGroup clock2 s2 c is g)"
    using r by (rule grouped_reads)
  show "sameValuesAt (groupContactKey g c)
        (snd (selectInstanceForContactInGroup clock1 s1 c is g))
        (snd (selectInstanceForContactInGroup clock2 s2 c is g))"
    using saves_sameValuesAt[OF a] r
    by (simp add: selectInstanceForContactInGroup_steps Let_def loadedRotation_def loadedGlobal_def)
qed

theorem selection_deterministic_witness:
  "[''a'', ''b'', ''c''] \<noteq> [] \<and>
   sameStoreAt (normalizeContactNumber ''5511'') midCycleStore laterStore \<and>
   sameStoreAt (groupContactKey ''g1'' ''5511'') midCycleStore laterStore \<and>
   fst (selectInstanceForContact (''t1'', ''t2'') midCycleStore ''5511'' [''a'', ''b'', ''c'']) =
     fst (selectInstanceForContact (''t3'', ''t4'') laterStore ''5511'' [''a'', ''b'', ''c'']) \<and>
   sameValuesAt (normalizeContactNumber ''5511'')
     (snd (selectInstanceForContact (''t1'', ''t2'') midCycleStore ''5511'' [''a'', ''b'', ''c'']))
     (snd (selectInstanceForContact (''t3'', ''t4'') laterStore ''5511'' [''a'', ''b'', ''c''])) \<and>
   fst (selectInstanceForContactInGroup (''t1'', ''t2'') midCycleStore ''5511'' [''a'', ''b'', ''c''] ''g1'') =
     fst (selectInstanceForContactInGroup (''t3'', ''t4'') laterStore ''5511'' [''a'', ''b'', ''c''] ''g1'') \<and>
   sameValuesAt (groupContactKey ''g1'' ''5511'')
     (snd (selectInstanceForContactInGroup (''t1'', ''t2'') midCycleStore ''5511'' [''a'', ''b'', ''c''] ''g1''))
     (snd (selectInstanceForContactInGroup (''t3'', ''t4'') laterStore ''5511'' [''a'', ''b'', ''c''] ''g1''))"
  using selection_deterministic[of "''5511''" midCycleStore laterStore "[''a'', ''b'', ''c'']"
      "(''t1'', ''t2'')" "(''t3'', ''t4'')" "''g1''"]
  by (simp add: sameStoreAt_def laterStore_def midCycleStore_def emptyStore_def store_eval)

section \<open>No immediate repeat for a contact\<close>

lemma firstMatchFrom_Some:
  "firstMatchFrom ok xs g i = Some y \<Longrightarrow> ok y \<and> y \<in> set xs"
proof (induction ok xs g i rule: firstMatchFrom.induct)
  case (1 ok xs g i)
  show ?case
  proof (cases "i < length xs")
    case False
    then show ?thesis using 1(2) by (simp add: firstMatchFrom.simps)
  next
    case True
    then have "0 < length xs" by arith
    then have in_range: "(g + i) mod length xs < length xs" by (rule mod_less_divisor)
    show ?thesis
    proof (cases "ok (xs ! ((g + i) mod length xs))")
      case True
      then show ?thesis using 1(2) \<open>i < length xs\<close> in_range
        by (subst (asm) firstMatchFrom.simps) (auto simp: Let_def)
    next
      case False
      then have "firstMatchFrom ok xs g (i + 1) = Some y"
        using 1(2) True by (subst (asm) firstMatchFrom.simps) (simp add: Let_def)
      then show ?thesis using 1(1)[OF True refl False] by simp
    qed
  qed
qed

lemma firstMatchFrom_None:
  "firstMatchFrom ok xs g i = None \<Longrightarrow> i \<le> j \<Longrightarrow> j < length xs
     \<Longrightarrow> \<not> ok (xs ! ((g + j) mod length xs))"
proof (induction ok xs g i rule: firstMatchFrom.induct)
  case (1 ok xs g i)
  have lt: "i < length xs" using 1(3,4) by simp
  have here: "\<not> ok (xs ! ((g + i) mod length xs))"
    using 1(2) lt by (subst (asm) firstMatchFrom.simps) (auto simp: Let_def split: if_splits)
  then have rest: "firstMatchFrom ok xs g (i + 1) = None"
    using 1(2) lt by (subst (asm) firstMatchFrom.simps) (simp add: Let_def)
  show ?case
  proof (cases "j = i")
    case True
    then show ?thesis using here by simp
  next
    case False
    then have "i + 1 \<le> j" using 1(3) by simp
    then show ?thesis using 1(1)[OF lt refl here rest] 1(4) by simp
  qed
qed

lemma reach_index:
  assumes "m < (n::nat)"
  shows "(g + (m + n - g mod n) mod n) mod n = m"
proof -
  have n: "0 < n" using assms by simp
  have "g mod n < n" using n by simp
  then have "\<And>q r. r = g mod n \<Longrightarrow> n * q + r + (m + n - r) = m + n * (q + 1)"
    by (simp add: algebra_simps)
  from this[of "g mod n" "g div n"]
  have "g + (m + n - g mod n) = m + n * (g div n + 1)"
    by (simp only: mult_div_mod_eq)
  moreover have "(m + n * (g div n + 1)) mod n = m" using assms by (simp del: mult_Suc_right add_Suc_right)
  ultimately have "(g + (m + n - g mod n)) mod n = m" by (simp only:)
  then show ?thesis by (simp add: mod_add_right_eq)
qed

lemma firstMatchFrom_finds:
  assumes "x \<in> set xs" "ok x"
  shows "\<exists>y. firstMatchFrom ok xs g 0 = Some y"
proof (rule ccontr)
  assume "\<not> (\<exists>y. firstMatchFrom ok xs g 0 = Some y)"
  then have none: "firstMatchFrom ok xs g 0 = None" by simp
  obtain m where m: "m < length xs" "xs ! m = x" using assms(1) by (auto simp: in_set_conv_nth)
  let ?j = "(m + length xs - g mod length xs) mod length xs"
  have "0 < length xs" using m(1) by arith
  then have "?j < length xs" by (rule mod_less_divisor)
  then have "\<not> ok (xs ! ((g + ?j) mod length xs))"
    using firstMatchFrom_None[OF none, of ?j] by simp
  then show False using reach_index[OF m(1), of g] m(2) assms(2) by simp
qed

lemma usable_other:
  assumes "usableCandidates is"
  shows "\<exists>x\<in>set is. Some x \<noteq> l"
proof -
  have "2 \<le> card (set is)" using assms by (simp add: usableCandidates_def length_remdups_card_conv)
  then have "\<not> card (set is) \<le> Suc 0" by simp
  then obtain a b where ab: "a \<in> set is" "b \<in> set is" "a \<noteq> b"
    using card_le_Suc0_iff_eq[of "set is"] by auto
  show ?thesis
  proof (cases "Some a = l")
    case True
    then have "Some b \<noteq> l" using ab(3) by auto
    then show ?thesis using ab(2) by blast
  next
    case False
    then show ?thesis using ab(1) by blast
  qed
qed

lemma usable_nonempty: "usableCandidates is \<Longrightarrow> is \<noteq> []"
  by (auto simp: usableCandidates_def)

lemma globalNextIndexOf_lt: "xs \<noteq> [] \<Longrightarrow> globalNextIndexOf g xs < length xs"
proof -
  assume ne: "xs \<noteq> []"
  then have pos: "0 < int (length xs)" by simp
  have "\<And>i. nat (i mod int (length xs)) < length xs"
    using pos by (metis nat_less_iff pos_mod_bound pos_mod_sign)
  then show ?thesis using ne
    by (auto simp: globalNextIndexOf_def Let_def split: option.splits)
qed

lemma truthyOpt_Some: "truthyOpt (Some y) = (y \<noteq> [])"
  by (simp add: truthyOpt_def truthy_def)

lemma truthyOpt_None: "\<not> truthyOpt None"
  by (simp add: truthyOpt_def)

lemma ungroupedPick_in:
  assumes "gni < length xs"
  shows "ungroupedPick info gni xs \<in> set xs"
proof -
  have a: "\<And>ok y. firstMatchFrom ok xs gni 0 = Some y \<Longrightarrow> y \<in> set xs"
    using firstMatchFrom_Some by blast
  have b: "xs ! gni \<in> set xs" using assms by simp
  show ?thesis
    unfolding ungroupedPick_def Let_def
    using a b by (auto simp: truthyOpt_def split: option.splits)
qed

lemma ungroupedPick_not_last:
  assumes "\<exists>x\<in>set xs. Some x \<noteq> lastUsedInstance info" and "[] \<notin> set xs"
  shows "Some (ungroupedPick info gni xs) \<noteq> lastUsedInstance info"
proof -
  let ?first = "firstMatchFrom
              (\<lambda>candidate. Some candidate \<noteq> lastUsedInstance info \<and>
                           \<not> Set_has (usedInstances info) candidate) xs gni 0"
  let ?second = "firstMatchFrom (\<lambda>candidate. Some candidate \<noteq> lastUsedInstance info) xs gni 0"
  show ?thesis
  proof (cases "truthyOpt ?first")
    case True
    then obtain y where y: "?first = Some y" by (cases ?first) (auto simp: truthyOpt_def)
    then have "Some y \<noteq> lastUsedInstance info" using firstMatchFrom_Some[OF y] by simp
    then show ?thesis using True y by (simp add: ungroupedPick_def Let_def)
  next
    case False
    obtain y where y: "?second = Some y"
      using assms(1) firstMatchFrom_finds[of _ xs "\<lambda>candidate. Some candidate \<noteq> lastUsedInstance info" gni]
      by blast
    have ok: "Some y \<noteq> lastUsedInstance info" and mem: "y \<in> set xs"
      using firstMatchFrom_Some[OF y] by simp_all
    then have "y \<noteq> []" using assms(2) by auto
    then have "truthyOpt ?second" using y by (simp add: truthyOpt_Some)
    then show ?thesis using False y ok by (simp add: ungroupedPick_def Let_def)
  qed
qed

lemma find_Some_holds: "find P xs = Some y \<Longrightarrow> P y \<and> y \<in> set xs"
  by (auto simp: find_Some_iff)

lemma find_finds: "x \<in> set xs \<Longrightarrow> P x \<Longrightarrow> \<exists>y. find P xs = Some y"
  by (cases "find P xs") (auto simp: find_None_iff)

lemma groupedPick_unfold:
  "groupedPick d g xs =
     (let nextGlobalInstance =
            xs ! nat (((case globalLastUsedInstance g of
                          None \<Rightarrow> -1
                        | Some l \<Rightarrow> if truthy l then indexOf xs l else -1) + 1)
                      mod int (length xs));
          unused = find (\<lambda>instance. Some instance \<noteq> lastUsedInstance d \<and>
                                     \<not> Set_has (usedInstances d) instance) xs;
          other = find (\<lambda>instance. Some instance \<noteq> lastUsedInstance d) xs
      in if Some nextGlobalInstance \<noteq> lastUsedInstance d \<and>
            \<not> Set_has (usedInstances d) nextGlobalInstance
         then nextGlobalInstance
         else if truthyOpt unused then the unused
         else if truthyOpt other then the other
         else xs ! 0)"
  by (simp add: groupedPick_def Let_def)

lemma truthyOpt_the: "truthyOpt x \<Longrightarrow> x = Some (the x)"
  by (cases x) (simp_all add: truthyOpt_def)

lemma groupedPick_in:
  assumes "xs \<noteq> []"
  shows "groupedPick d g xs \<in> set xs"
proof -
  define i where "i = (case globalLastUsedInstance g of
                          None \<Rightarrow> -1
                        | Some l \<Rightarrow> if truthy l then indexOf xs l else -1) + 1"
  define unused where "unused = find (\<lambda>instance. Some instance \<noteq> lastUsedInstance d \<and>
                                     \<not> Set_has (usedInstances d) instance) xs"
  define other where "other = find (\<lambda>instance. Some instance \<noteq> lastUsedInstance d) xs"
  have pos: "0 < int (length xs)" using assms by simp
  have "nat (i mod int (length xs)) < length xs"
    using pos by (metis nat_less_iff pos_mod_bound pos_mod_sign)
  then have n: "xs ! nat (i mod int (length xs)) \<in> set xs" by simp
  have z: "xs ! 0 \<in> set xs" using assms by simp
  have u: "truthyOpt unused \<Longrightarrow> the unused \<in> set xs"
    using truthyOpt_the[of unused] find_Some_holds[of _ xs "the unused"]
    unfolding unused_def by metis
  have o: "truthyOpt other \<Longrightarrow> the other \<in> set xs"
    using truthyOpt_the[of other] find_Some_holds[of _ xs "the other"]
    unfolding other_def by metis
  have "groupedPick d g xs =
          (if Some (xs ! nat (i mod int (length xs))) \<noteq> lastUsedInstance d \<and>
              \<not> Set_has (usedInstances d) (xs ! nat (i mod int (length xs)))
           then xs ! nat (i mod int (length xs))
           else if truthyOpt unused then the unused
           else if truthyOpt other then the other
           else xs ! 0)"
    by (simp add: groupedPick_unfold Let_def i_def unused_def other_def)
  then show ?thesis using n z u o by simp
qed

lemma groupedPick_not_last:
  assumes "\<exists>x\<in>set xs. Some x \<noteq> lastUsedInstance d" and "[] \<notin> set xs"
  shows "Some (groupedPick d g xs) \<noteq> lastUsedInstance d"
proof -
  define i where "i = (case globalLastUsedInstance g of
                          None \<Rightarrow> -1
                        | Some l \<Rightarrow> if truthy l then indexOf xs l else -1) + 1"
  define unused where "unused = find (\<lambda>instance. Some instance \<noteq> lastUsedInstance d \<and>
                                     \<not> Set_has (usedInstances d) instance) xs"
  define other where "other = find (\<lambda>instance. Some instance \<noteq> lastUsedInstance d) xs"
  obtain y where y: "other = Some y"
    using assms(1) find_finds[of _ xs "\<lambda>instance. Some instance \<noteq> lastUsedInstance d"]
    unfolding other_def by blast
  have ok: "Some y \<noteq> lastUsedInstance d" and mem: "y \<in> set xs"
    using find_Some_holds[OF y[unfolded other_def]] by simp_all
  then have "y \<noteq> []" using assms(2) by auto
  then have t: "truthyOpt other" using y by (simp add: truthyOpt_Some)
  have o: "Some (the other) \<noteq> lastUsedInstance d" using y ok by simp
  have u: "truthyOpt unused \<Longrightarrow> Some (the unused) \<noteq> lastUsedInstance d"
    using truthyOpt_the[of unused]
      find_Some_holds[of "\<lambda>instance. Some instance \<noteq> lastUsedInstance d \<and>
                                     \<not> Set_has (usedInstances d) instance" xs "the unused"]
    unfolding unused_def by metis
  have "groupedPick d g xs =
          (if Some (xs ! nat (i mod int (length xs))) \<noteq> lastUsedInstance d \<and>
              \<not> Set_has (usedInstances d) (xs ! nat (i mod int (length xs)))
           then xs ! nat (i mod int (length xs))
           else if truthyOpt unused then the unused
           else if truthyOpt other then the other
           else xs ! 0)"
    by (simp add: groupedPick_unfold Let_def i_def unused_def other_def)
  then show ?thesis using t o u by simp
qed

lemma resetWhenFull_last [simp]:
  "lastUsedInstance (resetWhenFull d n) = lastUsedInstance d"
  by (simp add: resetWhenFull_def)

lemma selectCall_in:
  assumes "usableCandidates (call_instances call)"
  shows "fst (selectCall clock s call) \<in> set (call_instances call)"
proof (cases call)
  case (Ungrouped c "is")
  then have "is \<noteq> []" using assms usable_nonempty[of "is"] by simp
  then have "length (sort is) \<noteq> 0" by simp
  then have ne: "sort is \<noteq> []" by (simp del: length_sort)
  show ?thesis
    using ungroupedPick_in[OF globalNextIndexOf_lt[OF ne]] Ungrouped
    by (simp add: selectCall_def selectInstanceForContact_steps Let_def)
next
  case (Grouped g c "is")
  then have "is \<noteq> []" using assms usable_nonempty[of "is"] by simp
  then have "length (sort is) \<noteq> 0" by simp
  then have ne: "sort is \<noteq> []" by (simp del: length_sort)
  show ?thesis
    using groupedPick_in[OF ne] Grouped
    by (simp add: selectCall_def selectInstanceForContactInGroup_steps Let_def)
qed

lemma selectCall_not_last:
  assumes "usableCandidates (call_instances call)"
  shows "Some (fst (selectCall clock s call)) \<noteq> lastOf s (callKey call)"
proof (cases call)
  case (Ungrouped c "is")
  then have u: "usableCandidates is" using assms by simp
  have e: "\<exists>x\<in>set (sort is). Some x \<noteq>
             lastUsedInstance (resetWhenFull (loadedRotation s (normalizeContactNumber c)) (length is))"
    using usable_other[OF u] by simp
  have n: "[] \<notin> set (sort is)" using u by (simp add: usableCandidates_def)
  show ?thesis
    using ungroupedPick_not_last[OF e n] Ungrouped
    by (simp add: selectCall_def callKey_def lastOf_def selectInstanceForContact_steps Let_def)
next
  case (Grouped g c "is")
  then have u: "usableCandidates is" using assms by simp
  have e: "\<exists>x\<in>set (sort is). Some x \<noteq> lastUsedInstance (loadedRotation s (groupContactKey g c))"
    using usable_other[OF u] by simp
  have n: "[] \<notin> set (sort is)" using u by (simp add: usableCandidates_def)
  show ?thesis
    using groupedPick_not_last[OF e n] Grouped
    by (simp add: selectCall_def callKey_def lastOf_def selectInstanceForContactInGroup_steps Let_def)
qed

lemma selectCall_mode [simp]: "mode (cache (snd (selectCall clock s call))) = mode (cache s)"
  by (cases call)
     (simp_all add: selectCall_def selectInstanceForContact_steps
        selectInstanceForContactInGroup_steps Let_def)

lemma lastOf_after_save:
  assumes "mode (cache s) \<noteq> CacheFailing" "lastUsedInstance d = Some p" "p \<noteq> []"
  shows "lastOf (saveGlobalRotationData n2 (saveRotationDataToCache n1 s k d) g) k = Some p"
  using assms get_after_save[OF assms(1), of n1 k d]
  by (simp add: lastOf_def loadedRotation_def get_frame_saveGlobal orNull_Some)

lemma selectCall_after:
  assumes "mode (cache s) \<noteq> CacheFailing" "fst (selectCall clock s call) \<noteq> []"
  shows "lastOf (snd (selectCall clock s call)) (callKey call) = Some (fst (selectCall clock s call))"
proof (cases call)
  case (Ungrouped c "is")
  show ?thesis
    using assms(2) lastOf_after_save[OF assms(1)] Ungrouped
    by (simp add: selectCall_def callKey_def selectInstanceForContact_steps Let_def
        ungroupedSaved_def)
next
  case (Grouped g c "is")
  show ?thesis
    using assms(2) lastOf_after_save[OF assms(1)] Grouped
    by (simp add: selectCall_def callKey_def selectInstanceForContactInGroup_steps Let_def
        groupedSaved_def)
qed

lemma selectCall_frame:
  assumes "key \<noteq> callKey call"
  shows "lastOf (snd (selectCall clock s call)) key = lastOf s key"
proof (cases call)
  case (Ungrouped c "is")
  then show ?thesis
    using assms ungrouped_frame[of key c clock s "is"]
    by (simp add: selectCall_def callKey_def lastOf_def loadedRotation_def)
next
  case (Grouped g c "is")
  then show ?thesis
    using assms grouped_frame[of key g c clock s "is"]
    by (simp add: selectCall_def callKey_def lastOf_def loadedRotation_def)
qed

lemma run_no_repeat:
  "mode (cache s) \<noteq> CacheFailing \<Longrightarrow>
   \<forall>cc\<in>set calls. usableCandidates (call_instances (snd cc)) \<Longrightarrow>
   distinct_adj (picksFor key (runSelects s calls)) \<and>
   (\<forall>p ps. picksFor key (runSelects s calls) = p # ps \<longrightarrow> Some p \<noteq> lastOf s key)"
proof (induction calls arbitrary: s)
  case Nil
  then show ?case by (simp add: picksFor_def)
next
  case (Cons cc calls)
  obtain clock call where cc: "cc = (clock, call)" by (cases cc)
  let ?pick = "fst (selectCall clock s call)"
  let ?s' = "snd (selectCall clock s call)"
  have u: "usableCandidates (call_instances call)" using Cons.prems(2) cc by simp
  have m: "mode (cache ?s') \<noteq> CacheFailing" using Cons.prems(1) by simp
  have ih: "distinct_adj (picksFor key (runSelects ?s' calls))"
    and ihh: "\<And>p ps. picksFor key (runSelects ?s' calls) = p # ps \<Longrightarrow> Some p \<noteq> lastOf ?s' key"
    using Cons.IH[OF m] Cons.prems(2) by auto
  show ?case
  proof (cases "callKey call = key")
    case True
    have ne: "?pick \<noteq> []" using selectCall_in[OF u, of clock s] u
      by (auto simp: usableCandidates_def)
    have after: "lastOf ?s' key = Some ?pick"
      using selectCall_after[OF Cons.prems(1) ne] True by simp
    have eq: "picksFor key (runSelects s (cc # calls)) = ?pick # picksFor key (runSelects ?s' calls)"
      using True cc by (simp add: picksFor_def)
    have "distinct_adj (?pick # picksFor key (runSelects ?s' calls))"
      using ih ihh after by (cases "picksFor key (runSelects ?s' calls)") auto
    moreover have "Some ?pick \<noteq> lastOf s key"
      using selectCall_not_last[OF u, of clock s] True by simp
    ultimately show ?thesis using eq by simp
  next
    case False
    have eq: "picksFor key (runSelects s (cc # calls)) = picksFor key (runSelects ?s' calls)"
      using False cc by (simp add: picksFor_def)
    have "lastOf ?s' key = lastOf s key"
      using selectCall_frame[of key call clock s] False by simp
    then show ?thesis using eq ih ihh by simp
  qed
qed

text \<open>
  Claim C5 as the code has it. In a run of selections, grouped or ungrouped, on a store
  whose cache does not throw, each with candidates of at least two different, non-empty
  names: no two consecutive picks for the same contact key are the same instance.
\<close>

theorem no_immediate_repeat:
  "mode (cache s) \<noteq> CacheFailing \<and>
   (\<forall>cc\<in>set calls. usableCandidates (call_instances (snd cc)))
   \<longrightarrow> distinct_adj (picksFor key (runSelects s calls))"
  using run_no_repeat[of s calls key] by blast

lemmas run_eval =
  selectCall_def callKey_def picksFor_def selectInstanceForContact_steps
  selectInstanceForContactInGroup_steps store_eval pick_eval

lemma three_calls:
  "runSelects emptyStore
     [((''t1'', ''t2''), Grouped ''g1'' ''5511'' [''a'', ''b'']),
      ((''t3'', ''t4''), Ungrouped ''5522'' [''a'', ''b'']),
      ((''t5'', ''t6''), Grouped ''g1'' ''5511'' [''a'', ''b''])] =
   [(''group_rotation:g1:5511'', ''a''), (''5522'', ''b''), (''group_rotation:g1:5511'', ''b'')]"
  by (simp add: run_eval)

theorem no_immediate_repeat_witness:
  "mode (cache emptyStore) \<noteq> CacheFailing \<and>
   usableCandidates [''a'', ''b''] \<and>
   picksFor ''group_rotation:g1:5511''
     (runSelects emptyStore
       [((''t1'', ''t2''), Grouped ''g1'' ''5511'' [''a'', ''b'']),
        ((''t3'', ''t4''), Ungrouped ''5522'' [''a'', ''b'']),
        ((''t5'', ''t6''), Grouped ''g1'' ''5511'' [''a'', ''b''])]) = [''a'', ''b''] \<and>
   distinct_adj
     (picksFor ''group_rotation:g1:5511''
       (runSelects emptyStore
         [((''t1'', ''t2''), Grouped ''g1'' ''5511'' [''a'', ''b'']),
          ((''t3'', ''t4''), Ungrouped ''5522'' [''a'', ''b'']),
          ((''t5'', ''t6''), Grouped ''g1'' ''5511'' [''a'', ''b''])]))"
  using no_immediate_repeat[of emptyStore
      "[((''t1'', ''t2''), Grouped ''g1'' ''5511'' [''a'', ''b'']),
        ((''t3'', ''t4''), Ungrouped ''5522'' [''a'', ''b'']),
        ((''t5'', ''t6''), Grouped ''g1'' ''5511'' [''a'', ''b''])]" "''group_rotation:g1:5511''"]
  unfolding three_calls
  by (simp add: emptyStore_def usableCandidates_def picksFor_def)

lemma broken_calls:
  "runSelects brokenStore
     [((''t1'', ''t2''), Grouped ''g1'' ''5511'' [''a'', ''b'']),
      ((''t3'', ''t4''), Grouped ''g1'' ''5511'' [''a'', ''b''])] =
   [(''group_rotation:g1:5511'', ''a''), (''group_rotation:g1:5511'', ''a'')]"
  "runSelects brokenStore
     [((''t1'', ''t2''), Ungrouped ''5511'' [''a'', ''b'']),
      ((''t3'', ''t4''), Ungrouped ''5511'' [''a'', ''b''])] =
   [(''5511'', ''a''), (''5511'', ''a'')]"
  by (simp_all add: run_eval brokenStore_def)

text \<open>
  Claim C5 as stated fails. With a cache that throws, two selections in a row for the
  same contact over the two candidates \<open>a\<close> and \<open>b\<close> both return \<open>a\<close>, in the grouped
  and in the ungrouped path.
\<close>

theorem no_immediate_repeat_counterexample:
  "picksFor ''group_rotation:g1:5511''
     (runSelects brokenStore
       [((''t1'', ''t2''), Grouped ''g1'' ''5511'' [''a'', ''b'']),
        ((''t3'', ''t4''), Grouped ''g1'' ''5511'' [''a'', ''b''])]) = [''a'', ''a''] \<and>
   picksFor ''5511''
     (runSelects brokenStore
       [((''t1'', ''t2''), Ungrouped ''5511'' [''a'', ''b'']),
        ((''t3'', ''t4''), Ungrouped ''5511'' [''a'', ''b''])]) = [''a'', ''a''] \<and>
   \<not> distinct_adj [''a'', ''a'']"
  unfolding broken_calls by (simp add: picksFor_def)

section \<open>The circuit breaker\<close>

lemma breakerInv_empty: "breakerInv t Map.empty"
  by (simp add: breakerInv_def)

lemma breakerInv_mono: "breakerInv t cbs \<Longrightarrow> t \<le> t' \<Longrightarrow> breakerInv t' cbs"
  by (fastforce simp: breakerInv_def)

lemma breakerInv_failure:
  "breakerInv t cbs \<Longrightarrow> t \<le> now \<Longrightarrow> breakerInv now (recordWebhookFailure cbs webhookId now)"
  unfolding breakerInv_def recordWebhookFailure_def Let_def
  by (auto split: option.splits if_splits) fastforce+

lemma breakerInv_success:
  "breakerInv t cbs \<Longrightarrow> breakerInv t (recordWebhookSuccess cbs webhookId)"
  unfolding breakerInv_def recordWebhookSuccess_def
  by (auto simp: CIRCUIT_BREAKER_THRESHOLD_def split: option.splits)

lemma breakerInv_gate:
  "breakerInv t cbs \<Longrightarrow> t \<le> now \<Longrightarrow> breakerInv now (snd (canExecuteWebhook cbs webhookId now))"
  unfolding breakerInv_def canExecuteWebhook_def
  by (auto simp: CIRCUIT_BREAKER_THRESHOLD_def split: option.splits circuit_state.splits)
     fastforce+

lemma sendWebhook_cases:
  "sendWebhook lib w cbs webhookId eventType eventData instanceName =
     (case found w of
        Inl e \<Rightarrow> (recordWebhookFailure cbs webhookId (failureTime w), [])
      | Inr None \<Rightarrow> (cbs, [])
      | Inr (Some webhook) \<Rightarrow>
          if \<not> webhook_enabled webhook then (cbs, [])
          else if \<not> fst (canExecuteWebhook cbs webhookId (gateTime w))
          then (snd (canExecuteWebhook cbs webhookId (gateTime w)), [])
          else if \<not> (eventWanted webhook eventType \<and> instanceWanted webhook instanceName)
          then (snd (canExecuteWebhook cbs webhookId (gateTime w)), [])
          else (let done = executeWebhookRequest lib webhook
                             \<lparr> payload_event = eventType, payload_instance = instanceName,
                               payload_data = eventData, payload_timestamp = payloadTime w,
                               payload_webhook_id = webhook_id webhook,
                               payload_webhook_name = webhook_name webhook \<rparr> (responses w)
                in (if snd done = None
                    then recordWebhookSuccess (snd (canExecuteWebhook cbs webhookId (gateTime w)))
                           webhookId
                    else recordWebhookFailure (snd (canExecuteWebhook cbs webhookId (gateTime w)))
                           webhookId (failureTime w),
                    fst done)))"
  by (auto simp: sendWebhook_def Let_def split: sum.splits option.splits prod.splits)

lemma breakerInv_sendWebhook:
  assumes "breakerInv t cbs" "t \<le> gateTime w" "gateTime w \<le> failureTime w"
  shows "breakerInv (failureTime w)
           (fst (sendWebhook lib w cbs webhookId eventType eventData instanceName))"
proof -
  have t: "t \<le> failureTime w" using assms(2,3) by simp
  have a: "breakerInv (failureTime w) cbs" using breakerInv_mono[OF assms(1) t] .
  have g: "breakerInv (gateTime w) (snd (canExecuteWebhook cbs webhookId (gateTime w)))"
    using breakerInv_gate[OF assms(1,2)] .
  have g': "breakerInv (failureTime w) (snd (canExecuteWebhook cbs webhookId (gateTime w)))"
    using breakerInv_mono[OF g assms(3)] .
  have f: "breakerInv (failureTime w) (recordWebhookFailure cbs webhookId (failureTime w))"
    using breakerInv_failure[OF assms(1) t] .
  have f': "breakerInv (failureTime w)
              (recordWebhookFailure (snd (canExecuteWebhook cbs webhookId (gateTime w)))
                 webhookId (failureTime w))"
    using breakerInv_failure[OF g assms(3)] .
  have s': "breakerInv (failureTime w)
              (recordWebhookSuccess (snd (canExecuteWebhook cbs webhookId (gateTime w))) webhookId)"
    using breakerInv_success[OF g'] .
  show ?thesis
    unfolding sendWebhook_cases Let_def
    using a g' f f' s' by (simp split: sum.splits option.splits)
qed

lemma breakerInv_run:
  "inOrder t (ds @ [d]) \<Longrightarrow> breakerInv t cbs
     \<Longrightarrow> \<exists>t'. t' \<le> gateTime (d_world d) \<and> breakerInv t' (runDispatches lib cbs ds)"
proof (induction ds arbitrary: t cbs)
  case Nil
  then show ?case by auto
next
  case (Cons e ds)
  have o: "t \<le> gateTime (d_world e)" "gateTime (d_world e) \<le> failureTime (d_world e)"
    and rest: "inOrder (failureTime (d_world e)) (ds @ [d])"
    using Cons.prems(1) by simp_all
  have "breakerInv (failureTime (d_world e)) (fst (dispatchOne lib cbs e))"
    unfolding dispatchOne_def using breakerInv_sendWebhook[OF Cons.prems(2) o] .
  from Cons.IH[OF rest this] show ?case by simp
qed

lemma denied_no_effect:
  assumes "breakerInv t cbs" "t \<le> gateTime w" "cbs webhookId = Some c"
    and "CIRCUIT_BREAKER_THRESHOLD \<le> failures c"
    and "gateTime w - lastFailureTime c \<le> CIRCUIT_BREAKER_TIMEOUT"
  shows "snd (sendWebhook lib w cbs webhookId eventType eventData instanceName) = []"
proof -
  have "state c = OPEN" using assms unfolding breakerInv_def by fastforce
  then have "\<not> fst (canExecuteWebhook cbs webhookId (gateTime w))"
    using assms(3,5) by (simp add: canExecuteWebhook_def)
  then show ?thesis
    unfolding sendWebhook_cases by (simp split: sum.splits option.splits)
qed

lemma gate_after_cooldown:
  "cbs webhookId = Some c \<Longrightarrow> state c = OPEN
     \<Longrightarrow> CIRCUIT_BREAKER_TIMEOUT < now - lastFailureTime c
     \<Longrightarrow> canExecuteWebhook cbs webhookId now = (True, cbs(webhookId \<mapsto> c\<lparr> state := HALF_OPEN \<rparr>))"
  by (simp add: canExecuteWebhook_def)

lemma gate_half_open:
  "cbs webhookId = Some c \<Longrightarrow> state c = HALF_OPEN
     \<Longrightarrow> canExecuteWebhook cbs webhookId now = (True, cbs)"
  by (simp add: canExecuteWebhook_def)

lemma executeWebhookRequest_posts_le:
  "posts (fst (executeWebhookRequest lib webhook payload rs)) \<le> maxRetryAttemptsOf (retryConfig webhook)"
  using retryLoop_posts_le[of _ "maxRetryAttemptsOf (retryConfig webhook)" _ rs 0]
  by (simp add: executeWebhookRequest_def retryWebhookRequest_def Let_def split: sum.splits)

lemma sendWebhook_parts:
  "sendWebhook lib w cbs webhookId eventType eventData instanceName =
     (case sendWebhook_untilDelivery w cbs webhookId eventType eventData instanceName of
        (cbs1, None) \<Rightarrow> (cbs1, [])
      | (cbs1, Some admitted) \<Rightarrow> sendWebhook_afterDelivery lib w cbs1 webhookId admitted)"
  by (auto simp: sendWebhook_def sendWebhook_untilDelivery_def sendWebhook_afterDelivery_def Let_def
      split: sum.splits option.splits prod.splits)

lemma gate_denies:
  assumes "cbs webhookId = Some c" "state c = OPEN"
    and "gateTime w - lastFailureTime c \<le> CIRCUIT_BREAKER_TIMEOUT"
  shows "posts (snd (sendWebhook lib w cbs webhookId eventType eventData instanceName)) = 0"
proof -
  have "\<not> fst (canExecuteWebhook cbs webhookId (gateTime w))"
    using assms by (simp add: canExecuteWebhook_def)
  then show ?thesis
    unfolding sendWebhook_cases by (simp split: sum.splits option.splits)
qed

lemma probe_outcome:
  assumes "found w = Inr (Some webhook)" "delivers webhook eventType instanceName"
    and "cbs webhookId = Some c" "state c = OPEN" "CIRCUIT_BREAKER_THRESHOLD \<le> failures c"
    and "CIRCUIT_BREAKER_TIMEOUT < gateTime w - lastFailureTime c"
  shows "snd (sendWebhook lib w cbs webhookId eventType eventData instanceName) =
           fst (deliveryOf lib w webhook eventType eventData instanceName) \<and>
         posts (fst (deliveryOf lib w webhook eventType eventData instanceName))
           \<le> maxRetryAttemptsOf (retryConfig webhook) \<and>
         fst (sendWebhook lib w cbs webhookId eventType eventData instanceName) webhookId =
           Some (if snd (deliveryOf lib w webhook eventType eventData instanceName) = None
                 then \<lparr> failures = 0, lastFailureTime = 0, state = CLOSED \<rparr>
                 else \<lparr> failures = failures c + 1, lastFailureTime = failureTime w, state = OPEN \<rparr>)"
proof -
  have g: "canExecuteWebhook cbs webhookId (gateTime w) =
             (True, cbs(webhookId \<mapsto> c\<lparr> state := HALF_OPEN \<rparr>))"
    using gate_after_cooldown[of cbs webhookId c "gateTime w"] assms(3,4,6) by simp
  show ?thesis
    unfolding sendWebhook_cases Let_def deliveryOf_def
    using assms(1,2,5) g executeWebhookRequest_posts_le[of lib webhook _ "responses w"]
    by (simp add: delivers_def recordWebhookSuccess_def recordWebhookFailure_def Let_def)
qed


text \<open>
  Claim C7 as the code has it. In a run of dispatches one after the other, each complete
  before the next begins, a dispatch to a subscriber whose record has 5 failures or more
  makes no request as long as no more than 60 seconds have passed since
  \<open>lastFailureTime\<close>; and whatever ran before, a dispatch whose gate finds the circuit
  open no more than 60 seconds after \<open>lastFailureTime\<close> makes no request. After that, the
  gate moves an open circuit to half-open and lets the dispatch through, and lets every
  dispatch through while the circuit is half-open. A dispatch let through after the
  cooldown that reaches the delivery makes the requests of the retry loop, at most
  \<open>maxAttempts\<close>; when the delivery succeeds it leaves the circuit closed with no
  failures, when it fails it leaves the circuit open with one failure more and
  \<open>lastFailureTime\<close> the time of the failure.
\<close>

theorem circuit_breaker_gate:
  "(inOrder t0 (ds @ [d]) \<and>
    runDispatches lib Map.empty ds (d_webhookId d) = Some c \<and>
    CIRCUIT_BREAKER_THRESHOLD \<le> failures c \<and>
    gateTime (d_world d) - lastFailureTime c \<le> CIRCUIT_BREAKER_TIMEOUT
    \<longrightarrow> posts (snd (dispatchOne lib (runDispatches lib Map.empty ds) d)) = 0) \<and>
   (cbs webhookId = Some c \<and> state c = OPEN \<and>
    gateTime w - lastFailureTime c \<le> CIRCUIT_BREAKER_TIMEOUT
    \<longrightarrow> posts (snd (sendWebhook lib w cbs webhookId eventType eventData instanceName)) = 0) \<and>
   (cbs webhookId = Some c \<and> state c = OPEN \<and> CIRCUIT_BREAKER_TIMEOUT < now - lastFailureTime c
    \<longrightarrow> canExecuteWebhook cbs webhookId now = (True, cbs(webhookId \<mapsto> c\<lparr> state := HALF_OPEN \<rparr>))) \<and>
   (cbs webhookId = Some c \<and> state c = HALF_OPEN
    \<longrightarrow> canExecuteWebhook cbs webhookId now = (True, cbs)) \<and>
   (found w = Inr (Some webhook) \<and> delivers webhook eventType instanceName \<and>
    cbs webhookId = Some c \<and> state c = OPEN \<and> CIRCUIT_BREAKER_THRESHOLD \<le> failures c \<and>
    CIRCUIT_BREAKER_TIMEOUT < gateTime w - lastFailureTime c
    \<longrightarrow> snd (sendWebhook lib w cbs webhookId eventType eventData instanceName) =
          fst (deliveryOf lib w webhook eventType eventData instanceName) \<and>
        posts (fst (deliveryOf lib w webhook eventType eventData instanceName))
          \<le> maxRetryAttemptsOf (retryConfig webhook) \<and>
        fst (sendWebhook lib w cbs webhookId eventType eventData instanceName) webhookId =
          Some (if snd (deliveryOf lib w webhook eventType eventData instanceName) = None
                then \<lparr> failures = 0, lastFailureTime = 0, state = CLOSED \<rparr>
                else \<lparr> failures = failures c + 1, lastFailureTime = failureTime w, state = OPEN \<rparr>))"
proof (intro conjI impI)
  assume a: "inOrder t0 (ds @ [d]) \<and>
    runDispatches lib Map.empty ds (d_webhookId d) = Some c \<and>
    CIRCUIT_BREAKER_THRESHOLD \<le> failures c \<and>
    gateTime (d_world d) - lastFailureTime c \<le> CIRCUIT_BREAKER_TIMEOUT"
  then obtain t' where t': "t' \<le> gateTime (d_world d)"
      "breakerInv t' (runDispatches lib Map.empty ds)"
    using breakerInv_run[of t0 ds d Map.empty lib] breakerInv_empty by blast
  have "snd (dispatchOne lib (runDispatches lib Map.empty ds) d) = []"
    unfolding dispatchOne_def
    using denied_no_effect[OF t'(2) t'(1)] a by blast
  then show "posts (snd (dispatchOne lib (runDispatches lib Map.empty ds) d)) = 0" by simp
next
  assume "cbs webhookId = Some c \<and> state c = OPEN \<and>
    gateTime w - lastFailureTime c \<le> CIRCUIT_BREAKER_TIMEOUT"
  then show "posts (snd (sendWebhook lib w cbs webhookId eventType eventData instanceName)) = 0"
    using gate_denies by blast
next
  assume "cbs webhookId = Some c \<and> state c = OPEN \<and> CIRCUIT_BREAKER_TIMEOUT < now - lastFailureTime c"
  then show "canExecuteWebhook cbs webhookId now = (True, cbs(webhookId \<mapsto> c\<lparr> state := HALF_OPEN \<rparr>))"
    using gate_after_cooldown by blast
next
  assume "cbs webhookId = Some c \<and> state c = HALF_OPEN"
  then show "canExecuteWebhook cbs webhookId now = (True, cbs)"
    using gate_half_open by blast
next
  assume "found w = Inr (Some webhook) \<and> delivers webhook eventType instanceName \<and>
    cbs webhookId = Some c \<and> state c = OPEN \<and> CIRCUIT_BREAKER_THRESHOLD \<le> failures c \<and>
    CIRCUIT_BREAKER_TIMEOUT < gateTime w - lastFailureTime c"
  then show "snd (sendWebhook lib w cbs webhookId eventType eventData instanceName) =
          fst (deliveryOf lib w webhook eventType eventData instanceName)"
    and "posts (fst (deliveryOf lib w webhook eventType eventData instanceName))
          \<le> maxRetryAttemptsOf (retryConfig webhook)"
    and "fst (sendWebhook lib w cbs webhookId eventType eventData instanceName) webhookId =
          Some (if snd (deliveryOf lib w webhook eventType eventData instanceName) = None
                then \<lparr> failures = 0, lastFailureTime = 0, state = CLOSED \<rparr>
                else \<lparr> failures = failures c + 1, lastFailureTime = failureTime w, state = OPEN \<rparr>)"
    using probe_outcome[of w webhook eventType instanceName cbs webhookId c lib eventData] by blast+
qed

lemma failing_delivery:
  "executeWebhookRequest lib signedWebhook payload serverError =
     ([HttpPost \<lparr> req_url = ''https://example.com/hook'',
                  req_headers = [(''Content-Type'', ''application/json'')],
                  req_timeout = 30000, req_body = payload \<rparr>, Sleep,
       HttpPost \<lparr> req_url = ''https://example.com/hook'',
                  req_headers = [(''Content-Type'', ''application/json'')],
                  req_timeout = 30000, req_body = payload \<rparr>, Sleep,
       HttpPost \<lparr> req_url = ''https://example.com/hook'',
                  req_headers = [(''Content-Type'', ''application/json'')],
                  req_timeout = 30000, req_body = payload \<rparr>,
       UpdateStats False (Some ''Request failed with status code 500'')],
      Some (AxiosError None (Some 500) ''Request failed with status code 500''))"
  by (simp add: executeWebhookRequest_def signedWebhook_def spread_def
      configureAuthentication_def retryWebhookRequest_def retryLoop.simps
      maxRetryAttemptsOf_def nonRetryableStatusCodesOf_def serverError_def isNonRetryable_def)

lemma accepted_delivery:
  "executeWebhookRequest lib signedWebhook payload accepted =
     ([HttpPost \<lparr> req_url = ''https://example.com/hook'',
                  req_headers = [(''Content-Type'', ''application/json'')],
                  req_timeout = 30000, req_body = payload \<rparr>,
       UpdateStats True None], None)"
  by (simp add: executeWebhookRequest_def signedWebhook_def spread_def
      configureAuthentication_def retryWebhookRequest_def retryLoop.simps
      maxRetryAttemptsOf_def nonRetryableStatusCodesOf_def accepted_def)

lemma deliveries:
  "snd (deliveryOf lib (failingWorld t) signedWebhook eventType eventData instanceName) =
     Some (AxiosError None (Some 500) ''Request failed with status code 500'')"
  "posts (fst (deliveryOf lib (failingWorld t) signedWebhook eventType eventData instanceName)) = 3"
  "snd (deliveryOf lib (acceptingWorld t) signedWebhook eventType eventData instanceName) = None"
  "posts (fst (deliveryOf lib (acceptingWorld t) signedWebhook eventType eventData instanceName)) = 1"
  by (simp_all add: deliveryOf_def failingWorld_def acceptingWorld_def failing_delivery
      accepted_delivery)

lemma world_fields:
  "found (failingWorld t) = Inr (Some signedWebhook)" "gateTime (failingWorld t) = t"
  "failureTime (failingWorld t) = t + 100"
  "found (acceptingWorld t) = Inr (Some signedWebhook)" "gateTime (acceptingWorld t) = t"
  "failureTime (acceptingWorld t) = t + 100"
  by (simp_all add: failingWorld_def acceptingWorld_def)

lemma signedWebhook_fields:
  "webhook_enabled signedWebhook" "webhook_id signedWebhook = ''wh1''"
  "webhook_name signedWebhook = ''hook''" "retryConfig signedWebhook = None"
  by (simp_all add: signedWebhook_def)

lemma signedWebhook_delivers: "delivers signedWebhook ''MESSAGES_UPSERT'' (Some ''a'')"
  by (simp add: delivers_def signedWebhook_def eventWanted_def instanceWanted_def)

lemma failing_dispatch_closed:
  assumes "cbs ''wh1'' = Some c" "state c = CLOSED"
  shows "fst (dispatchOne lib cbs (failingDispatch t)) ''wh1'' =
           Some (if 4 \<le> failures c
                 then \<lparr> failures = failures c + 1, lastFailureTime = t + 100, state = OPEN \<rparr>
                 else \<lparr> failures = failures c + 1, lastFailureTime = t + 100, state = CLOSED \<rparr>)"
  using assms signedWebhook_delivers
  unfolding dispatchOne_def sendWebhook_cases
  by (simp add: failingDispatch_def failingWorld_def failing_delivery delivers_def
      canExecuteWebhook_def recordWebhookFailure_def CIRCUIT_BREAKER_THRESHOLD_def Let_def
      signedWebhook_fields)

lemma failing_dispatch_first:
  "fst (dispatchOne lib Map.empty (failingDispatch t)) ''wh1'' =
     Some \<lparr> failures = 1, lastFailureTime = t + 100, state = CLOSED \<rparr>"
  using signedWebhook_delivers
  unfolding dispatchOne_def sendWebhook_cases
  by (simp add: failingDispatch_def failingWorld_def failing_delivery delivers_def
      canExecuteWebhook_def recordWebhookFailure_def CIRCUIT_BREAKER_THRESHOLD_def Let_def
      signedWebhook_fields)

lemma five_failures:
  "runDispatches lib Map.empty
     [failingDispatch 0, failingDispatch 1000, failingDispatch 2000, failingDispatch 3000,
      failingDispatch 4000] ''wh1'' =
   Some \<lparr> failures = 5, lastFailureTime = 4100, state = OPEN \<rparr>"
proof -
  let ?c1 = "fst (dispatchOne lib Map.empty (failingDispatch 0))"
  let ?c2 = "fst (dispatchOne lib ?c1 (failingDispatch 1000))"
  let ?c3 = "fst (dispatchOne lib ?c2 (failingDispatch 2000))"
  let ?c4 = "fst (dispatchOne lib ?c3 (failingDispatch 3000))"
  let ?c5 = "fst (dispatchOne lib ?c4 (failingDispatch 4000))"
  have 1: "?c1 ''wh1'' = Some \<lparr> failures = 1, lastFailureTime = 100, state = CLOSED \<rparr>"
    using failing_dispatch_first[of lib 0] by simp
  have 2: "?c2 ''wh1'' = Some \<lparr> failures = 2, lastFailureTime = 1100, state = CLOSED \<rparr>"
    using failing_dispatch_closed[of ?c1 "\<lparr> failures = 1, lastFailureTime = 100, state = CLOSED \<rparr>" lib 1000] 1 by simp
  have 3: "?c3 ''wh1'' = Some \<lparr> failures = 3, lastFailureTime = 2100, state = CLOSED \<rparr>"
    using failing_dispatch_closed[of ?c2 "\<lparr> failures = 2, lastFailureTime = 1100, state = CLOSED \<rparr>" lib 2000] 2 by simp
  have 4: "?c4 ''wh1'' = Some \<lparr> failures = 4, lastFailureTime = 3100, state = CLOSED \<rparr>"
    using failing_dispatch_closed[of ?c3 "\<lparr> failures = 3, lastFailureTime = 2100, state = CLOSED \<rparr>" lib 3000] 3 by simp
  have 5: "?c5 ''wh1'' = Some \<lparr> failures = 5, lastFailureTime = 4100, state = OPEN \<rparr>"
    using failing_dispatch_closed[of ?c4 "\<lparr> failures = 4, lastFailureTime = 3100, state = CLOSED \<rparr>" lib 4000] 4 by simp
  show ?thesis using 5 by simp
qed

text \<open>The record with 4 failures is the one four failing dispatches leave.\<close>

lemma four_failures_reached:
  "runDispatches lib Map.empty
     [failingDispatch 0, failingDispatch 1000, failingDispatch 2000, failingDispatch 3000] ''wh1'' =
   fourFailures ''wh1''"
proof -
  let ?c1 = "fst (dispatchOne lib Map.empty (failingDispatch 0))"
  let ?c2 = "fst (dispatchOne lib ?c1 (failingDispatch 1000))"
  let ?c3 = "fst (dispatchOne lib ?c2 (failingDispatch 2000))"
  let ?c4 = "fst (dispatchOne lib ?c3 (failingDispatch 3000))"
  have 1: "?c1 ''wh1'' = Some \<lparr> failures = 1, lastFailureTime = 100, state = CLOSED \<rparr>"
    using failing_dispatch_first[of lib 0] by simp
  have 2: "?c2 ''wh1'' = Some \<lparr> failures = 2, lastFailureTime = 1100, state = CLOSED \<rparr>"
    using failing_dispatch_closed[of ?c1 "\<lparr> failures = 1, lastFailureTime = 100, state = CLOSED \<rparr>" lib 1000] 1 by simp
  have 3: "?c3 ''wh1'' = Some \<lparr> failures = 3, lastFailureTime = 2100, state = CLOSED \<rparr>"
    using failing_dispatch_closed[of ?c2 "\<lparr> failures = 2, lastFailureTime = 1100, state = CLOSED \<rparr>" lib 2000] 2 by simp
  have 4: "?c4 ''wh1'' = Some \<lparr> failures = 4, lastFailureTime = 3100, state = CLOSED \<rparr>"
    using failing_dispatch_closed[of ?c3 "\<lparr> failures = 3, lastFailureTime = 2100, state = CLOSED \<rparr>" lib 3000] 3 by simp
  show ?thesis using 4 by (simp add: fourFailures_def)
qed

lemma five_in_order:
  "inOrder 0 ([failingDispatch 0, failingDispatch 1000, failingDispatch 2000, failingDispatch 3000,
      failingDispatch 4000] @ [failingDispatch 5000])"
  by (simp add: failingDispatch_def failingWorld_def)

lemma probe_posts:
  "sendWebhook lib (failingWorld 70000) openBreakers ''wh1'' ''MESSAGES_UPSERT'' ''ping'' (Some ''a'') =
     (openBreakers(''wh1'' \<mapsto> \<lparr> failures = 6, lastFailureTime = 70100, state = OPEN \<rparr>),
      fst (executeWebhookRequest lib signedWebhook
             \<lparr> payload_event = ''MESSAGES_UPSERT'', payload_instance = Some ''a'',
               payload_data = ''ping'', payload_timestamp = ''2025-10-17T10:29:29.000Z'',
               payload_webhook_id = ''wh1'', payload_webhook_name = ''hook'' \<rparr> serverError))"
  using signedWebhook_delivers
  unfolding sendWebhook_cases
  by (simp add: failingWorld_def failing_delivery delivers_def openBreakers_def
      canExecuteWebhook_def recordWebhookFailure_def CIRCUIT_BREAKER_THRESHOLD_def
      CIRCUIT_BREAKER_TIMEOUT_def Let_def signedWebhook_fields)

text \<open>
  Five failing dispatches one after the other open the circuit, and the sixth, 900 ms
  later, makes no request; a dispatch whose gate finds the circuit open 60 seconds after
  the last failure makes none either. 69 seconds after the last failure the gate lets a
  dispatch through: to an endpoint that still answers 500 it makes three requests and the
  circuit is open again, with 6 failures; to an endpoint that answers 200 it makes one
  request and the circuit is closed.
\<close>

theorem circuit_breaker_gate_witness:
  "inOrder 0 ([failingDispatch 0, failingDispatch 1000, failingDispatch 2000, failingDispatch 3000,
      failingDispatch 4000] @ [failingDispatch 5000]) \<and>
   runDispatches plainLibraries Map.empty
     [failingDispatch 0, failingDispatch 1000, failingDispatch 2000, failingDispatch 3000,
      failingDispatch 4000] (d_webhookId (failingDispatch 5000)) =
     Some \<lparr> failures = 5, lastFailureTime = 4100, state = OPEN \<rparr> \<and>
   CIRCUIT_BREAKER_THRESHOLD \<le> 5 \<and>
   gateTime (d_world (failingDispatch 5000)) - 4100 \<le> CIRCUIT_BREAKER_TIMEOUT \<and>
   posts (snd (dispatchOne plainLibraries
                 (runDispatches plainLibraries Map.empty
                    [failingDispatch 0, failingDispatch 1000, failingDispatch 2000,
                     failingDispatch 3000, failingDispatch 4000])
                 (failingDispatch 5000))) = 0 \<and>
   openBreakers ''wh1'' = Some \<lparr> failures = 5, lastFailureTime = 1000, state = OPEN \<rparr> \<and>
   gateTime (acceptingWorld 61000) - 1000 \<le> CIRCUIT_BREAKER_TIMEOUT \<and>
   posts (snd (sendWebhook plainLibraries (acceptingWorld 61000) openBreakers ''wh1''
                 ''MESSAGES_UPSERT'' ''ping'' (Some ''a''))) = 0 \<and>
   CIRCUIT_BREAKER_TIMEOUT < 70000 - 1000 \<and>
   canExecuteWebhook openBreakers ''wh1'' 70000 =
     (True, openBreakers(''wh1'' \<mapsto> \<lparr> failures = 5, lastFailureTime = 1000, state = HALF_OPEN \<rparr>)) \<and>
   halfOpenBreakers ''wh1'' = Some \<lparr> failures = 5, lastFailureTime = 1000, state = HALF_OPEN \<rparr> \<and>
   canExecuteWebhook halfOpenBreakers ''wh1'' 70000 = (True, halfOpenBreakers) \<and>
   found (failingWorld 70000) = Inr (Some signedWebhook) \<and>
   found (acceptingWorld 70000) = Inr (Some signedWebhook) \<and>
   delivers signedWebhook ''MESSAGES_UPSERT'' (Some ''a'') \<and>
   posts (snd (sendWebhook plainLibraries (failingWorld 70000) openBreakers ''wh1''
                 ''MESSAGES_UPSERT'' ''ping'' (Some ''a''))) = 3 \<and>
   fst (sendWebhook plainLibraries (failingWorld 70000) openBreakers ''wh1''
          ''MESSAGES_UPSERT'' ''ping'' (Some ''a'')) ''wh1'' =
     Some \<lparr> failures = 6, lastFailureTime = 70100, state = OPEN \<rparr> \<and>
   posts (snd (sendWebhook plainLibraries (acceptingWorld 70000) openBreakers ''wh1''
                 ''MESSAGES_UPSERT'' ''ping'' (Some ''a''))) = 1 \<and>
   fst (sendWebhook plainLibraries (acceptingWorld 70000) openBreakers ''wh1''
          ''MESSAGES_UPSERT'' ''ping'' (Some ''a'')) ''wh1'' =
     Some \<lparr> failures = 0, lastFailureTime = 0, state = CLOSED \<rparr>"
proof -
  let ?ds = "[failingDispatch 0, failingDispatch 1000, failingDispatch 2000, failingDispatch 3000,
      failingDispatch 4000]"
  let ?c = "\<lparr> failures = 5, lastFailureTime = 4100, state = OPEN \<rparr>"
  let ?o = "\<lparr> failures = 5, lastFailureTime = 1000, state = OPEN \<rparr>"
  let ?h = "\<lparr> failures = 5, lastFailureTime = 1000, state = HALF_OPEN \<rparr>"
  have h1: "inOrder 0 (?ds @ [failingDispatch 5000])" by (rule five_in_order)
  have h2: "runDispatches plainLibraries Map.empty ?ds (d_webhookId (failingDispatch 5000)) = Some ?c"
    using five_failures[of plainLibraries] by (simp add: failingDispatch_def)
  have h3: "CIRCUIT_BREAKER_THRESHOLD \<le> failures ?c" "CIRCUIT_BREAKER_THRESHOLD \<le> failures ?o"
    by (simp_all add: CIRCUIT_BREAKER_THRESHOLD_def)
  have h4: "gateTime (d_world (failingDispatch 5000)) - lastFailureTime ?c \<le> CIRCUIT_BREAKER_TIMEOUT"
    by (simp add: failingDispatch_def failingWorld_def CIRCUIT_BREAKER_TIMEOUT_def)
  have c1: "posts (snd (dispatchOne plainLibraries (runDispatches plainLibraries Map.empty ?ds)
                     (failingDispatch 5000))) = 0"
    using circuit_breaker_gate[where ?t0.0 = 0 and ds = ?ds and d = "failingDispatch 5000"
        and lib = plainLibraries and c = ?c] h1 h2 h3(1) h4
    by blast
  have o1: "openBreakers ''wh1'' = Some ?o" by (simp add: openBreakers_def)
  have o2: "state ?o = OPEN" by simp
  have o3: "CIRCUIT_BREAKER_TIMEOUT < 70000 - lastFailureTime ?o"
    by (simp add: CIRCUIT_BREAKER_TIMEOUT_def)
  have d1: "gateTime (acceptingWorld 61000) - lastFailureTime ?o \<le> CIRCUIT_BREAKER_TIMEOUT"
    by (simp add: world_fields CIRCUIT_BREAKER_TIMEOUT_def)
  have c2: "posts (snd (sendWebhook plainLibraries (acceptingWorld 61000) openBreakers ''wh1''
                 ''MESSAGES_UPSERT'' ''ping'' (Some ''a''))) = 0"
    using circuit_breaker_gate[where cbs = openBreakers and webhookId = "''wh1''" and c = ?o
        and w = "acceptingWorld 61000" and lib = plainLibraries
        and eventType = "''MESSAGES_UPSERT''" and eventData = "''ping''"
        and instanceName = "Some ''a''"] o1 o2 d1
    by blast
  have c3: "canExecuteWebhook openBreakers ''wh1'' 70000 =
              (True, openBreakers(''wh1'' \<mapsto> ?o\<lparr> state := HALF_OPEN \<rparr>))"
    using circuit_breaker_gate[where cbs = openBreakers and webhookId = "''wh1''" and c = ?o
        and now = 70000] o1 o2 o3 by blast
  have p1: "halfOpenBreakers ''wh1'' = Some ?h" by (simp add: halfOpenBreakers_def)
  have p2: "state ?h = HALF_OPEN" by simp
  have c4: "canExecuteWebhook halfOpenBreakers ''wh1'' 70000 = (True, halfOpenBreakers)"
    using circuit_breaker_gate[where cbs = halfOpenBreakers and webhookId = "''wh1''" and c = ?h
        and now = 70000] p1 p2 by blast
  have q1: "found (failingWorld 70000) = Inr (Some signedWebhook)"
    "found (acceptingWorld 70000) = Inr (Some signedWebhook)" by (simp_all add: world_fields)
  have q2: "delivers signedWebhook ''MESSAGES_UPSERT'' (Some ''a'')" by (rule signedWebhook_delivers)
  have q3: "CIRCUIT_BREAKER_TIMEOUT < gateTime (failingWorld 70000) - lastFailureTime ?o"
    "CIRCUIT_BREAKER_TIMEOUT < gateTime (acceptingWorld 70000) - lastFailureTime ?o"
    by (simp_all add: world_fields CIRCUIT_BREAKER_TIMEOUT_def)
  have c5: "snd (sendWebhook plainLibraries (failingWorld 70000) openBreakers ''wh1''
                 ''MESSAGES_UPSERT'' ''ping'' (Some ''a'')) =
              fst (deliveryOf plainLibraries (failingWorld 70000) signedWebhook
                     ''MESSAGES_UPSERT'' ''ping'' (Some ''a'')) \<and>
            fst (sendWebhook plainLibraries (failingWorld 70000) openBreakers ''wh1''
                 ''MESSAGES_UPSERT'' ''ping'' (Some ''a'')) ''wh1'' =
              Some (if snd (deliveryOf plainLibraries (failingWorld 70000) signedWebhook
                              ''MESSAGES_UPSERT'' ''ping'' (Some ''a'')) = None
                    then \<lparr> failures = 0, lastFailureTime = 0, state = CLOSED \<rparr>
                    else \<lparr> failures = failures ?o + 1,
                           lastFailureTime = failureTime (failingWorld 70000), state = OPEN \<rparr>)"
    using circuit_breaker_gate[where cbs = openBreakers and webhookId = "''wh1''" and c = ?o
        and w = "failingWorld 70000" and lib = plainLibraries and webhook = signedWebhook
        and eventType = "''MESSAGES_UPSERT''" and eventData = "''ping''"
        and instanceName = "Some ''a''"]
      q1(1) q2 o1 o2 h3(2) q3(1)
    by blast
  have c6: "snd (sendWebhook plainLibraries (acceptingWorld 70000) openBreakers ''wh1''
                 ''MESSAGES_UPSERT'' ''ping'' (Some ''a'')) =
              fst (deliveryOf plainLibraries (acceptingWorld 70000) signedWebhook
                     ''MESSAGES_UPSERT'' ''ping'' (Some ''a'')) \<and>
            fst (sendWebhook plainLibraries (acceptingWorld 70000) openBreakers ''wh1''
                 ''MESSAGES_UPSERT'' ''ping'' (Some ''a'')) ''wh1'' =
              Some (if snd (deliveryOf plainLibraries (acceptingWorld 70000) signedWebhook
                              ''MESSAGES_UPSERT'' ''ping'' (Some ''a'')) = None
                    then \<lparr> failures = 0, lastFailureTime = 0, state = CLOSED \<rparr>
                    else \<lparr> failures = failures ?o + 1,
                           lastFailureTime = failureTime (acceptingWorld 70000), state = OPEN \<rparr>)"
    using circuit_breaker_gate[where cbs = openBreakers and webhookId = "''wh1''" and c = ?o
        and w = "acceptingWorld 70000" and lib = plainLibraries and webhook = signedWebhook
        and eventType = "''MESSAGES_UPSERT''" and eventData = "''ping''"
        and instanceName = "Some ''a''"]
      q1(2) q2 o1 o2 h3(2) q3(2)
    by blast
  have e: "failures ?c = 5" "lastFailureTime ?c = 4100" "lastFailureTime ?o = 1000"
      "?o\<lparr> state := HALF_OPEN \<rparr> = ?h"
    by simp_all
  have c5': "posts (snd (sendWebhook plainLibraries (failingWorld 70000) openBreakers ''wh1''
                 ''MESSAGES_UPSERT'' ''ping'' (Some ''a''))) = 3"
      "fst (sendWebhook plainLibraries (failingWorld 70000) openBreakers ''wh1''
          ''MESSAGES_UPSERT'' ''ping'' (Some ''a'')) ''wh1'' =
        Some \<lparr> failures = 6, lastFailureTime = 70100, state = OPEN \<rparr>"
    using c5 by (simp_all add: deliveries world_fields)
  have c6': "posts (snd (sendWebhook plainLibraries (acceptingWorld 70000) openBreakers ''wh1''
                 ''MESSAGES_UPSERT'' ''ping'' (Some ''a''))) = 1"
      "fst (sendWebhook plainLibraries (acceptingWorld 70000) openBreakers ''wh1''
          ''MESSAGES_UPSERT'' ''ping'' (Some ''a'')) ''wh1'' =
        Some \<lparr> failures = 0, lastFailureTime = 0, state = CLOSED \<rparr>"
    using c6 by (simp_all add: deliveries world_fields)
  show ?thesis
    using h1 h2 h3(1) h4 c1 o1 d1 c2 o3 c3 p1 c4 q1 q2 c5' c6' unfolding e by blast
qed

lemma overlap_admitted:
  "admittedFirst =
     (fourFailures,
      Some (signedWebhook,
            \<lparr> payload_event = ''MESSAGES_UPSERT'', payload_instance = Some ''a'',
              payload_data = ''ping'', payload_timestamp = ''2025-10-17T10:29:29.000Z'',
              payload_webhook_id = ''wh1'', payload_webhook_name = ''hook'' \<rparr>))"
  using signedWebhook_delivers
  by (simp add: admittedFirst_def sendWebhook_untilDelivery_def acceptingWorld_def
      fourFailures_def canExecuteWebhook_def delivers_def signedWebhook_fields)

lemma overlap_second_fails:
  "afterSecondFails = [''wh1'' \<mapsto> \<lparr> failures = 5, lastFailureTime = 4700, state = OPEN \<rparr>]"
  using signedWebhook_delivers
  unfolding afterSecondFails_def overlap_admitted dispatchOne_def sendWebhook_cases
  by (simp add: failingDispatch_def failingWorld_def failing_delivery delivers_def
      fourFailures_def canExecuteWebhook_def recordWebhookFailure_def
      CIRCUIT_BREAKER_THRESHOLD_def Let_def signedWebhook_fields)

lemma overlap_first_succeeds:
  "afterFirstSucceeds = [''wh1'' \<mapsto> \<lparr> failures = 0, lastFailureTime = 0, state = CLOSED \<rparr>]"
  unfolding afterFirstSucceeds_def overlap_admitted overlap_second_fails
  by (simp add: sendWebhook_afterDelivery_def acceptingWorld_def accepted_delivery
      recordWebhookSuccess_def)

lemma overlap_third_posts:
  "snd (dispatchOne plainLibraries afterFirstSucceeds (failingDispatch 6000)) =
     fst (executeWebhookRequest plainLibraries signedWebhook
            \<lparr> payload_event = ''MESSAGES_UPSERT'', payload_instance = Some ''a'',
              payload_data = ''ping'', payload_timestamp = ''2025-10-17T10:29:29.000Z'',
              payload_webhook_id = ''wh1'', payload_webhook_name = ''hook'' \<rparr> serverError)"
  using signedWebhook_delivers
  unfolding overlap_first_succeeds dispatchOne_def sendWebhook_cases
  by (simp add: failingDispatch_def failingWorld_def failing_delivery delivers_def
      canExecuteWebhook_def recordWebhookFailure_def
      CIRCUIT_BREAKER_THRESHOLD_def Let_def signedWebhook_fields)

text \<open>
  Claim C7 as stated fails. More than 60 seconds after the circuit opened, the next
  dispatch to a subscriber that keeps answering 500 makes three requests, not one; and
  a half-open circuit lets a dispatch through, stays half-open, and lets the next one
  through. With dispatches that overlap the first half fails too: a dispatch is let
  through while the record has 4 failures and its delivery is slow; meanwhile a second
  dispatch fails, at time 4700, and opens the circuit with 5 failures; the delivery of the
  first then succeeds and closes the circuit; and a third dispatch, at time 6000, makes
  three requests, 1300 ms after the fifth failure.
\<close>

theorem circuit_breaker_counterexample:
  "openBreakers ''wh1'' = Some \<lparr> failures = 5, lastFailureTime = 1000, state = OPEN \<rparr> \<and>
   posts (snd (sendWebhook plainLibraries (failingWorld 70000) openBreakers ''wh1''
                 ''MESSAGES_UPSERT'' ''ping'' (Some ''a''))) = 3 \<and>
   canExecuteWebhook halfOpenBreakers ''wh1'' 70000 = (True, halfOpenBreakers) \<and>
   canExecuteWebhook (snd (canExecuteWebhook halfOpenBreakers ''wh1'' 70000)) ''wh1'' 70001 =
     (True, halfOpenBreakers) \<and>
   fourFailures ''wh1'' = Some \<lparr> failures = 4, lastFailureTime = 3100, state = CLOSED \<rparr> \<and>
   snd admittedFirst \<noteq> None \<and>
   afterSecondFails ''wh1'' = Some \<lparr> failures = 5, lastFailureTime = 4700, state = OPEN \<rparr> \<and>
   afterFirstSucceeds ''wh1'' = Some \<lparr> failures = 0, lastFailureTime = 0, state = CLOSED \<rparr> \<and>
   gateTime (d_world (failingDispatch 6000)) - 4700 \<le> CIRCUIT_BREAKER_TIMEOUT \<and>
   posts (snd (dispatchOne plainLibraries afterFirstSucceeds (failingDispatch 6000))) = 3"
proof -
  have p: "posts (snd (sendWebhook plainLibraries (failingWorld 70000) openBreakers ''wh1''
                 ''MESSAGES_UPSERT'' ''ping'' (Some ''a''))) = 3"
    unfolding probe_posts failing_delivery by simp
  have q: "posts (snd (dispatchOne plainLibraries afterFirstSucceeds (failingDispatch 6000))) = 3"
    unfolding overlap_third_posts failing_delivery by simp
  show ?thesis
    unfolding p q
    by (simp add: overlap_admitted overlap_second_fails overlap_first_succeeds openBreakers_def
        halfOpenBreakers_def canExecuteWebhook_def failingDispatch_def failingWorld_def
        fourFailures_def CIRCUIT_BREAKER_TIMEOUT_def)
qed

end
